theory Spec2Isabelle
  imports Complex_Main "HOL-Library.AList" "HOL-Library.Sublist" "HOL-Library.Multiset"
begin

section \<open>Data model (internal/client)\<close>

text \<open>
  The structs of the client package that the chat handler works on. Go strings are
  modelled as \<open>string\<close>; the zero value of a struct has every string empty.
\<close>

record FunctionCall =
  Name :: string
  Arguments :: string

record ToolCall =
  ID :: string
  Type :: string
  Function :: FunctionCall

record ChatMessage =
  Role :: string
  Content :: string
  ToolCallID :: string
  ToolCalls :: "ToolCall list"

record ChatResponse =
  Model :: string
  Message :: ChatMessage
  Done :: bool
  DoneReason :: string
  Error :: string

text \<open>
  \<open>ChatRequest\<close>: the \<open>Tools\<close> field holds the names of the offered tool
  descriptors (their descriptions and parameter schemas play no role in the handler).
\<close>

record ChatRequest =
  ReqModel :: string
  Messages :: "ChatMessage list"
  Stream :: bool
  Tools :: "string list"

section \<open>The tool-call accumulator (chat.go, lines 94 and 127-157)\<close>

text \<open>
  \<open>toolCallsMap\<close> is a Go \<open>map[string]client.ToolCall\<close>. It is modelled as an
  association list with distinct keys, kept in insertion order. Reading a missing key
  gives the zero \<open>ToolCall\<close>; assigning to a key replaces the entry or adds one.

  Go does not specify the order in which \<open>range\<close> visits a map. The order is
  therefore a parameter \<open>ord\<close> of the model: \<open>ord m\<close> is the sequence of entries
  that a \<open>range\<close> over the map \<open>m\<close> visits, each entry once
  (\<open>range_order ord\<close>). Within one round no two \<open>range\<close> loops whose order
  matters see the same map contents (a loop that finds a record makes its arguments
  longer), so a function of the contents covers every behaviour of the runtime.
\<close>

type_synonym tool_call_map = "(string \<times> ToolCall) list"

type_synonym order = "tool_call_map \<Rightarrow> tool_call_map"

definition range_order :: "order \<Rightarrow> bool" where
  "range_order ord = (\<forall>m. mset (ord m) = mset m)"

definition zeroToolCall :: ToolCall where
  "zeroToolCall = \<lparr>ID = '''', Type = '''', Function = \<lparr>Name = '''', Arguments = ''''\<rparr>\<rparr>"

definition lookup :: "tool_call_map \<Rightarrow> string \<Rightarrow> ToolCall" where
  "lookup m k = (case map_of m k of None \<Rightarrow> zeroToolCall | Some tc \<Rightarrow> tc)"

text \<open>The test \<open>tc.ID != "" && tc.Function.Name != ""\<close> of lines 113, 148 and 188.\<close>

definition eligible :: "ToolCall \<Rightarrow> bool" where
  "eligible tc = (ID tc \<noteq> '''' \<and> Name (Function tc) \<noteq> '''')"

text \<open>Lines 141 and 150: \<open>existing.Function.Arguments += ...\<close>.\<close>

definition appendArguments :: "ToolCall \<Rightarrow> string \<Rightarrow> ToolCall" where
  "appendArguments existing s =
     existing\<lparr>Function := (Function existing)\<lparr>Arguments := Arguments (Function existing) @ s\<rparr>\<rparr>"

text \<open>Lines 133-142: the fields of a chunk with an ID are merged into the stored record.\<close>

definition mergeInto :: "ToolCall \<Rightarrow> ToolCall \<Rightarrow> ToolCall" where
  "mergeInto existing tc =
     (let existing = (if Type tc \<noteq> '''' then existing\<lparr>Type := Type tc\<rparr> else existing);
          existing = existing\<lparr>ID := ID tc\<rparr>;
          existing = (if Name (Function tc) \<noteq> ''''
                      then existing\<lparr>Function := (Function existing)\<lparr>Name := Name (Function tc)\<rparr>\<rparr>
                      else existing)
      in if Arguments (Function tc) \<noteq> ''''
         then appendArguments existing (Arguments (Function tc)) else existing)"

text \<open>Lines 132 and 143: the record stored under the chunk's ID is read, merged and stored.\<close>

definition mergeByID :: "tool_call_map \<Rightarrow> ToolCall \<Rightarrow> tool_call_map" where
  "mergeByID m tc = AList.update (ID tc) (mergeInto (lookup m (ID tc)) tc) m"

text \<open>
  Lines 147-154: the chunk has arguments only. The \<open>range\<close> loop stops at the first
  visited record with a non-empty ID and name and appends the fragment to it.
\<close>

definition appendToFirst :: "order \<Rightarrow> tool_call_map \<Rightarrow> ToolCall \<Rightarrow> tool_call_map" where
  "appendToFirst ord m tc =
     (case find (\<lambda>existing. ID existing \<noteq> '''' \<and> Name (Function existing) \<noteq> '''') (map snd (ord m)) of
        None \<Rightarrow> m
      | Some existing \<Rightarrow>
          AList.update (ID existing) (appendArguments existing (Arguments (Function tc))) m)"

text \<open>Lines 130-155: the body of the loop over the chunk's tool calls.\<close>

definition collectToolCall :: "order \<Rightarrow> tool_call_map \<Rightarrow> ToolCall \<Rightarrow> tool_call_map" where
  "collectToolCall ord m tc =
     (if ID tc \<noteq> '''' then mergeByID m tc
      else if Arguments (Function tc) \<noteq> '''' \<and> Name (Function tc) = '''' then appendToFirst ord m tc
      else m)"

text \<open>Lines 128-157: all tool calls of one chunk, in order (an empty list changes nothing).\<close>

definition collectToolCalls :: "order \<Rightarrow> tool_call_map \<Rightarrow> ToolCall list \<Rightarrow> tool_call_map" where
  "collectToolCalls ord m tcs = foldl (collectToolCall ord) m tcs"

text \<open>
  Lines 110-116 and 186-191: the map is turned back into a slice, in the order the
  \<open>range\<close> visits it, keeping the eligible records.
\<close>

definition eligibleToolCalls :: "order \<Rightarrow> tool_call_map \<Rightarrow> ToolCall list" where
  "eligibleToolCalls ord m = filter eligible (map snd (ord m))"

section \<open>The chat handler (internal/handlers/chat.go)\<close>

text \<open>
  The handler's collaborators are parameters of the model. A Go \<open>(T, error)\<close> result
  is a sum: \<open>Inl\<close> carries the error's message, \<open>Inr\<close> the value.

  \<^item> \<open>ollamaClient h req\<close> is \<open>h.ollamaClient.ChatStream(ctx, req)\<close>: an error, or
    the responses that the returned channel delivers before it is closed.
  \<^item> \<open>availableTools h\<close> is \<open>h.toolExecutor.GetAvailableTools()\<close> (the names of the
    enabled tools) and \<open>toolExecutor h name arguments\<close> is
    \<open>h.toolExecutor.ExecuteToolCall(ctx, name, arguments)\<close>. The handler is built with
    an executor (cmd/server/main.go), so \<open>h.toolExecutor\<close> is not nil.

  The backend and the tools are outside the program: what they answer is taken as a
  function of what they are asked.
\<close>

record ChatHandler =
  ollamaClient :: "ChatRequest \<Rightarrow> string + ChatResponse list"
  availableTools :: "string list"
  toolExecutor :: "string \<Rightarrow> string \<Rightarrow> string + string"

text \<open>
  What the Go runtime decides: \<open>ctxDone rt n\<close> holds when the \<open>n\<close>-th
  \<open>select\<close> of the request takes the \<open>ctx.Done()\<close> case (deadline or client
  disconnect); \<open>marshalFails rt response\<close> holds when \<open>json.Marshal(response)\<close>
  returns an error; \<open>rangeOrder rt\<close> is the order of \<open>range\<close> over the map.
\<close>

record runtime =
  ctxDone :: "nat \<Rightarrow> bool"
  marshalFails :: "ChatResponse \<Rightarrow> bool"
  rangeOrder :: order

text \<open>
  What the handler does, in order. \<open>Call req\<close>: \<open>ChatStream\<close> is invoked with
  \<open>req\<close>. \<open>Exec name arguments\<close>: \<open>ExecuteToolCall\<close> is invoked.
  \<open>Write f\<close>: a frame is written to the client and flushed, where \<open>Forwarded r\<close>
  is the frame \<open>data: \<close> followed by \<open>json.Marshal(r)\<close>, and \<open>ErrorFrame msg\<close> is the frame
  \<open>data: {"done": true, "error": "<msg>"}\<close>.
\<close>

datatype frame = Forwarded ChatResponse | ErrorFrame string

datatype effect = Call ChatRequest | Exec string string | Write frame

text \<open>The variables of lines 93-95.\<close>

record round =
  assistantContent :: string
  toolCallsMap :: tool_call_map
  finishReason :: string

definition newRound :: round where
  "newRound = \<lparr>assistantContent = '''', toolCallsMap = [], finishReason = ''''\<rparr>"

text \<open>Lines 127-167: what one received response adds to the round's variables.\<close>

definition collect :: "runtime \<Rightarrow> round \<Rightarrow> ChatResponse \<Rightarrow> round" where
  "collect rt st response =
     \<lparr>assistantContent =
        (if Content (Message response) \<noteq> ''''
         then assistantContent st @ Content (Message response) else assistantContent st),
      toolCallsMap =
        (if length (ToolCalls (Message response)) > 0
         then collectToolCalls (rangeOrder rt) (toolCallsMap st) (ToolCalls (Message response))
         else toolCallsMap st),
      finishReason =
        (if DoneReason response \<noteq> '''' then DoneReason response else finishReason st)\<rparr>"

text \<open>Lines 220-233: each tool call is executed and its result appended to the history.\<close>

fun executeToolCalls :: "ChatHandler \<Rightarrow> ChatRequest \<Rightarrow> ToolCall list \<Rightarrow> effect list \<times> ChatRequest" where
  "executeToolCalls h req [] = ([], req)"
| "executeToolCalls h req (toolCall # rest) =
     (let result =
            (case toolExecutor h (Name (Function toolCall)) (Arguments (Function toolCall)) of
               Inl err \<Rightarrow> ''Error executing tool '' @ Name (Function toolCall) @ '': '' @ err
             | Inr result \<Rightarrow> result);
          req = req\<lparr>Messages := Messages req @
                  [\<lparr>Role = ''tool'', Content = result, ToolCallID = ID toolCall, ToolCalls = []\<rparr>]\<rparr>;
          (effs, req) = executeToolCalls h req rest
      in (Exec (Name (Function toolCall)) (Arguments (Function toolCall)) # effs, req))"

text \<open>Lines 244-270: the final response is streamed to the client.\<close>

fun streamFinal :: "runtime \<Rightarrow> nat \<Rightarrow> ChatResponse list \<Rightarrow> effect list" where
  "streamFinal rt n [] =
     (if ctxDone rt n then [Write (ErrorFrame ''context cancelled'')] else [])"
| "streamFinal rt n (response # stream) =
     (if ctxDone rt n then [Write (ErrorFrame ''context cancelled'')]
      else if marshalFails rt response then [Write (ErrorFrame ''failed to marshal response'')]
      else Write (Forwarded response) #
           (if Done response then [] else streamFinal rt (Suc n) stream))"

text \<open>
  \<open>executeAndContinue\<close> (lines 209-271). \<open>n\<close> is the number of \<open>select\<close>s already
  made. The result is what was done and the request as the caller's pointer sees it.
\<close>

definition executeAndContinue ::
  "ChatHandler \<Rightarrow> runtime \<Rightarrow> nat \<Rightarrow> ChatRequest \<Rightarrow> string \<Rightarrow> ToolCall list \<Rightarrow> effect list \<times> ChatRequest" where
  "executeAndContinue h rt n req content toolCalls =
     (let req = req\<lparr>Messages := Messages req @
                  [\<lparr>Role = ''assistant'', Content = content, ToolCallID = '''', ToolCalls = toolCalls\<rparr>]\<rparr>;
          (execs, req) = executeToolCalls h req toolCalls
      in case ollamaClient h req of
           Inl err \<Rightarrow>
             (execs @ [Call req, Write (ErrorFrame (''Failed to get final response: '' @ err))], req)
         | Inr stream \<Rightarrow> (execs @ Call req # streamFinal rt n stream, req))"

text \<open>Lines 98-205: the loop of the first round.\<close>

fun streamLoop ::
  "ChatHandler \<Rightarrow> runtime \<Rightarrow> ChatRequest \<Rightarrow> nat \<Rightarrow> round \<Rightarrow> ChatResponse list \<Rightarrow> effect list \<times> ChatRequest" where
  "streamLoop h rt req n st [] =
     (if ctxDone rt n then ([Write (ErrorFrame ''context cancelled'')], req)
      else if length (toolCallsMap st) > 0 then
        (let toolCalls = eligibleToolCalls (rangeOrder rt) (toolCallsMap st)
         in if length toolCalls > 0
            then executeAndContinue h rt (Suc n) req (assistantContent st) toolCalls
            else ([], req))
      else ([], req))"
| "streamLoop h rt req n st (response # stream) =
     (if ctxDone rt n then ([Write (ErrorFrame ''context cancelled'')], req)
      else
        let st = collect rt st response;
            forward = (Content (Message response) \<noteq> '''' \<or> length (ToolCalls (Message response)) > 0)
        in if forward \<and> marshalFails rt response
           then ([Write (ErrorFrame ''failed to marshal response'')], req)
           else
             let (effs, req) =
               (if Done response then
                  (if length (toolCallsMap st) > 0 \<and> finishReason st = ''tool_calls'' then
                     (let toolCalls = eligibleToolCalls (rangeOrder rt) (toolCallsMap st)
                      in if length toolCalls > 0
                         then executeAndContinue h rt (Suc n) req (assistantContent st) toolCalls
                         else ([], req))
                   else ([], req))
                else streamLoop h rt req (Suc n) st stream)
             in ((if forward then [Write (Forwarded response)] else []) @ effs, req))"

text \<open>\<open>streamWithFunctionCalling\<close> (lines 78-206).\<close>

definition streamWithFunctionCalling ::
  "ChatHandler \<Rightarrow> runtime \<Rightarrow> ChatRequest \<Rightarrow> effect list \<times> ChatRequest" where
  "streamWithFunctionCalling h rt req =
     (let req = req\<lparr>Tools := availableTools h\<rparr>
      in case ollamaClient h req of
           Inl err \<Rightarrow> ([Call req, Write (ErrorFrame ''Failed to start chat'')], req)
         | Inr stream \<Rightarrow>
             (let (effs, req') = streamLoop h rt req 0 newRound stream in (Call req # effs, req')))"

section \<open>The transport adapter (ChatStream of the llama.cpp client)\<close>

text \<open>The chunk of the backend's stream, as far as \<open>ChatStream\<close> reads it.\<close>

record OpenAIChoice =
  Delta :: ChatMessage
  FinishReason :: "string option"

record OpenAIChatChunk =
  ChunkModel :: string
  Choices :: "OpenAIChoice list"

definition emptyMessage :: ChatMessage where
  "emptyMessage = \<lparr>Role = '''', Content = '''', ToolCallID = '''', ToolCalls = []\<rparr>"

text \<open>
  The goroutine of \<open>ChatStream\<close> (lines 215-282): the responses it sends before it
  closes the channel. \<open>unmarshal\<close> is \<open>json.Unmarshal\<close> into an
  \<open>OpenAIChatChunk\<close>; the list is the lines that \<open>scanner.Scan\<close> yields and
  \<open>scanErr\<close> is \<open>scanner.Err()\<close> after the last of them.
\<close>

fun scanLines ::
  "(string \<Rightarrow> string + OpenAIChatChunk) \<Rightarrow> string \<Rightarrow> string list \<Rightarrow> string option \<Rightarrow> ChatResponse list" where
  "scanLines unmarshal model [] scanErr =
     (case scanErr of
        None \<Rightarrow> []
      | Some err \<Rightarrow>
          [\<lparr>Model = model, Message = emptyMessage, Done = True, DoneReason = '''',
            Error = ''scanner error: '' @ err\<rparr>])"
| "scanLines unmarshal model (line # rest) scanErr =
     (if line = '''' then scanLines unmarshal model rest scanErr
      else if line = ''data: [DONE]'' then
        [\<lparr>Model = model, Message = emptyMessage, Done = True, DoneReason = '''', Error = ''''\<rparr>]
      else if \<not> prefix ''data: '' line then scanLines unmarshal model rest scanErr
      else
        (case unmarshal (drop (length ''data: '') line) of
           Inl err \<Rightarrow>
             [\<lparr>Model = model, Message = emptyMessage, Done = True, DoneReason = '''',
               Error = ''failed to parse chunk: '' @ err\<rparr>]
         | Inr chunk \<Rightarrow>
             (case Choices chunk of
                [] \<Rightarrow> scanLines unmarshal model rest scanErr
              | choice # _ \<Rightarrow>
                  \<lparr>Model = ChunkModel chunk,
                   Message = \<lparr>Role = Role (Delta choice), Content = Content (Delta choice),
                              ToolCallID = '''', ToolCalls = ToolCalls (Delta choice)\<rparr>,
                   Done = (FinishReason choice \<noteq> None),
                   DoneReason = (case FinishReason choice of None \<Rightarrow> '''' | Some r \<Rightarrow> r),
                   Error = ''''\<rparr> #
                  (if FinishReason choice \<noteq> None then []
                   else scanLines unmarshal model rest scanErr))))"

section \<open>The tool executor\<close>

text \<open>A value that \<open>json.Unmarshal\<close> stores in an \<open>interface{}\<close>.\<close>

datatype json_value =
  JNil | JBool bool | JFloat64 real | JString string
  | JSlice "json_value list" | JMap "(string \<times> json_value) list"

record SearchResult =
  Title :: string
  Href :: string
  Body :: string

text \<open>
  \<open>Published\<close> holds the article's time as \<open>Format("Jan 2, 2006 3:04 PM")\<close>
  renders it.
\<close>

record Article =
  ArticleTitle :: string
  Source :: string
  Published :: string
  Description :: string
  Link :: string

record PortfolioArgs =
  QueryType :: string
  FocusArea :: string

text \<open>
  The executor's collaborators. \<open>unmarshalMap\<close> and \<open>unmarshalArgs\<close> are
  \<open>json.Unmarshal\<close> into a \<open>map[string]interface{}\<close> and into the argument
  struct of \<open>executeAnalyzePortfolio\<close>; \<open>Search\<close> and \<open>FetchNews\<close> are the
  search and news clients; the four \<open>execute...\<close> fields are the results of the
  portfolio sub-handlers, which take no argument but the context. \<open>toInt\<close> is Go's
  conversion \<open>int(f)\<close> of a \<open>float64\<close>: it truncates towards zero when the
  result fits the type \<open>int\<close>, and what it gives otherwise depends on the platform.
\<close>

record ToolExecutor =
  unmarshalMap :: "string \<Rightarrow> string + (string \<rightharpoonup> json_value)"
  unmarshalArgs :: "string \<Rightarrow> string + PortfolioArgs"
  Search :: "string \<Rightarrow> int \<Rightarrow> string + SearchResult list"
  FetchNews :: "string \<Rightarrow> int \<Rightarrow> string + Article list"
  executePortfolioOverview :: "string + string"
  executeOpportunitiesAnalysis :: "string + string"
  executeRiskAnalysis :: "string + string"
  executeMarketContextAnalysis :: "string + string"
  toInt :: "real \<Rightarrow> int"

text \<open>\<open>%d\<close> of a natural number.\<close>

fun showNat :: "nat \<Rightarrow> string" where
  "showNat n =
     (if n < 10 then [char_of (48 + n)] else showNat (n div 10) @ [char_of (48 + n mod 10)])"

declare showNat.simps [simp del]

definition formatSearchResult :: "nat \<times> SearchResult \<Rightarrow> string" where
  "formatSearchResult p =
     (case p of (i, result) \<Rightarrow>
        showNat (i + 1) @ ''. **'' @ Title result @ ''**'' @ [CHR 0x0A] @
        ''   URL: '' @ Href result @ [CHR 0x0A] @
        ''   '' @ Body result @ [CHR 0x0A, CHR 0x0A])"

definition executeWebSearch :: "ToolExecutor \<Rightarrow> (string \<rightharpoonup> json_value) \<Rightarrow> string + string" where
  "executeWebSearch e args =
     (case (case args ''query'' of Some (JString query) \<Rightarrow> Some query | _ \<Rightarrow> None) of
        None \<Rightarrow> Inl ''query parameter is required''
      | Some query \<Rightarrow>
          if query = '''' then Inl ''query parameter is required''
          else
            let maxResults = (case args ''max_results'' of Some (JFloat64 mr) \<Rightarrow> toInt e mr | _ \<Rightarrow> 5)
            in case Search e query maxResults of
                 Inl err \<Rightarrow> Inl (''search failed: '' @ err)
               | Inr results \<Rightarrow>
                   Inr (''Search results for '' @ [CHR 0x27] @ query @ [CHR 0x27] @ '':'' @
                        [CHR 0x0A, CHR 0x0A] @
                        concat (map formatSearchResult (enumerate 0 results))))"

definition formatArticle :: "nat \<times> Article \<Rightarrow> string" where
  "formatArticle p =
     (case p of (i, article) \<Rightarrow>
        showNat (i + 1) @ ''. **'' @ ArticleTitle article @ ''**'' @ [CHR 0x0A] @
        ''   Source: '' @ Source article @ [CHR 0x0A] @
        ''   Published: '' @ Published article @ [CHR 0x0A] @
        (if Description article \<noteq> '''' then ''   '' @ Description article @ [CHR 0x0A] else '''') @
        ''   Read more: '' @ Link article @ [CHR 0x0A, CHR 0x0A])"

definition executeGetNews :: "ToolExecutor \<Rightarrow> (string \<rightharpoonup> json_value) \<Rightarrow> string + string" where
  "executeGetNews e args =
     (let topic = (case args ''topic'' of
                     Some (JString topic) \<Rightarrow> (if topic = '''' then ''world'' else topic)
                   | _ \<Rightarrow> ''world'');
          maxArticles = (case args ''max_articles'' of Some (JFloat64 ma) \<Rightarrow> toInt e ma | _ \<Rightarrow> 10)
      in case FetchNews e topic maxArticles of
           Inl err \<Rightarrow> Inl (''failed to fetch news: '' @ err)
         | Inr articles \<Rightarrow>
             Inr (''Latest '' @ topic @ '' news:'' @ [CHR 0x0A, CHR 0x0A] @
                  concat (map formatArticle (enumerate 0 articles))))"

text \<open>\<open>executeFullAnalysis\<close>: the sections whose sub-handler succeeded, in order.\<close>

definition fullSection :: "string \<Rightarrow> string + string \<Rightarrow> string" where
  "fullSection heading r =
     (case r of Inl err \<Rightarrow> '''' | Inr text \<Rightarrow> heading @ [CHR 0x0A] @ text @ [CHR 0x0A])"

text \<open>
  The title line of the report starts with an emoji, \<open>F0 9F 93 8A\<close> in UTF-8.
  \<open>focusArea\<close> is not used by the source.
\<close>

definition executeFullAnalysis :: "ToolExecutor \<Rightarrow> string \<Rightarrow> string + string" where
  "executeFullAnalysis e focusArea =
     Inr (''# '' @ [CHR 0xF0, CHR 0x9F, CHR 0x93, CHR 0x8A] @ '' Complete Portfolio Analysis'' @
          [CHR 0x0A, CHR 0x0A] @
          fullSection ''## Portfolio State'' (executePortfolioOverview e) @
          fullSection ''## Trading Opportunities'' (executeOpportunitiesAnalysis e) @
          fullSection ''## Risk Assessment'' (executeRiskAnalysis e) @
          fullSection ''## Market Context'' (executeMarketContextAnalysis e))"

definition executeAnalyzePortfolio :: "ToolExecutor \<Rightarrow> string \<Rightarrow> string + string" where
  "executeAnalyzePortfolio e arguments =
     (case unmarshalArgs e arguments of
        Inl err \<Rightarrow> Inl (''invalid arguments: '' @ err)
      | Inr args \<Rightarrow>
          if QueryType args = '''' then Inl ''query_type is required''
          else if QueryType args = ''overview'' then executePortfolioOverview e
          else if QueryType args = ''opportunities'' then executeOpportunitiesAnalysis e
          else if QueryType args = ''risk'' then executeRiskAnalysis e
          else if QueryType args = ''market_context'' then executeMarketContextAnalysis e
          else if QueryType args = ''full_analysis'' then executeFullAnalysis e (FocusArea args)
          else Inl (''unknown query_type: '' @ QueryType args))"

definition ExecuteToolCall :: "ToolExecutor \<Rightarrow> string \<Rightarrow> string \<Rightarrow> string + string" where
  "ExecuteToolCall e name arguments =
     (case unmarshalMap e arguments of
        Inl err \<Rightarrow> Inl (''invalid arguments: '' @ err)
      | Inr args \<Rightarrow>
          if name = ''web_search'' then executeWebSearch e args
          else if name = ''get_news'' then executeGetNews e args
          else if name = ''analyze_portfolio'' then executeAnalyzePortfolio e arguments
          else Inl (''unknown tool: '' @ name))"

section \<open>Notions used to state the properties\<close>

text \<open>
  The map invariant of the accumulator: the keys are distinct, and every record is
  stored under its own, non-empty ID.
\<close>

definition keyed :: "tool_call_map \<Rightarrow> bool" where
  "keyed m = (distinct (map fst m) \<and> list_all (\<lambda>(k, e). ID e = k \<and> k \<noteq> '''') m)"

text \<open>
  \<open>grows e e'\<close>: the record \<open>e'\<close> is a later state of the record \<open>e\<close>. The ID is
  the same and not empty, a name that was there is still there, and the arguments of
  \<open>e\<close> are a prefix of those of \<open>e'\<close>.
\<close>

definition grows :: "ToolCall \<Rightarrow> ToolCall \<Rightarrow> bool" where
  "grows e e' = (ID e' = ID e \<and> ID e' \<noteq> '''' \<and>
     (Name (Function e) \<noteq> '''' \<longrightarrow> Name (Function e') \<noteq> '''') \<and>
     prefix (Arguments (Function e)) (Arguments (Function e')))"

text \<open>A tool-call delta with the given ID, type, function name and argument fragment.\<close>

definition chunk :: "string \<Rightarrow> string \<Rightarrow> string \<Rightarrow> string \<Rightarrow> ToolCall" where
  "chunk i t n a = \<lparr>ID = i, Type = t, Function = \<lparr>Name = n, Arguments = a\<rparr>\<rparr>"

text \<open>
  An executor for the examples. Its decoders know the argument text \<open>{}\<close> (an object
  without fields) and reject every other text; its news client answers with one article
  whose title is the topic it was asked for.
\<close>

definition exampleExecutor :: ToolExecutor where
  "exampleExecutor =
     \<lparr>unmarshalMap = (\<lambda>s. if s = ''{}'' then Inr Map.empty else Inl ''invalid character''),
      unmarshalArgs = (\<lambda>s. if s = ''{}'' then Inr \<lparr>QueryType = '''', FocusArea = ''''\<rparr>
                           else Inl ''invalid character''),
      Search = (\<lambda>query maxResults. Inr []),
      FetchNews = (\<lambda>topic maxArticles.
         Inr [\<lparr>ArticleTitle = topic, Source = ''s'', Published = ''p'', Description = '''',
               Link = ''l''\<rparr>]),
      executePortfolioOverview = Inr ''overview'',
      executeOpportunitiesAnalysis = Inr ''opportunities'',
      executeRiskAnalysis = Inl ''failed to get risk metrics: unreachable'',
      executeMarketContextAnalysis = Inr ''context'',
      toInt = (\<lambda>f. if 0 \<le> f then \<lfloor>f\<rfloor> else \<lceil>f\<rceil>)\<rparr>"

text \<open>Kinds of effects, and the frames that end a stream: \<open>"done": true\<close>.\<close>

fun isExec :: "effect \<Rightarrow> bool" where
  "isExec (Exec name arguments) = True"
| "isExec _ = False"

fun isCall :: "effect \<Rightarrow> bool" where
  "isCall (Call req) = True"
| "isCall _ = False"

fun terminal :: "frame \<Rightarrow> bool" where
  "terminal (ErrorFrame msg) = True"
| "terminal (Forwarded response) = Done response"

text \<open>The invocation of the executor for a record.\<close>

definition execEffect :: "ToolCall \<Rightarrow> effect" where
  "execEffect toolCall = Exec (Name (Function toolCall)) (Arguments (Function toolCall))"

text \<open>The history entry that answers a record: the tool's result or its formatted error.\<close>

definition toolMessage :: "ChatHandler \<Rightarrow> ToolCall \<Rightarrow> ChatMessage" where
  "toolMessage h toolCall =
     \<lparr>Role = ''tool'',
      Content =
        (case toolExecutor h (Name (Function toolCall)) (Arguments (Function toolCall)) of
           Inl err \<Rightarrow> ''Error executing tool '' @ Name (Function toolCall) @ '': '' @ err
         | Inr result \<Rightarrow> result),
      ToolCallID = ID toolCall, ToolCalls = []\<rparr>"

definition assistantMessage :: "string \<Rightarrow> ToolCall list \<Rightarrow> ChatMessage" where
  "assistantMessage content toolCalls =
     \<lparr>Role = ''assistant'', Content = content, ToolCallID = '''', ToolCalls = toolCalls\<rparr>"

text \<open>
  The responses that the loop of the first round receives when nothing interrupts it:
  those up to and including the first with \<open>done = true\<close>, or all of them.
\<close>

fun roundPrefix :: "ChatResponse list \<Rightarrow> ChatResponse list" where
  "roundPrefix [] = []"
| "roundPrefix (response # stream) =
     (if Done response then [response] else response # roundPrefix stream)"

text \<open>The variables of a round that started with \<open>st\<close>, when its loop ends.\<close>

definition roundEnd :: "runtime \<Rightarrow> round \<Rightarrow> ChatResponse list \<Rightarrow> round" where
  "roundEnd rt st stream = foldl (collect rt) st (roundPrefix stream)"

text \<open>
  The decision at the end of the first round (lines 108-121 and 184-199): the map is not
  empty, some record is eligible and, if the round ended with a \<open>done\<close> response, the
  last reason received is \<open>tool_calls\<close>.
\<close>

definition toolsRequested :: "runtime \<Rightarrow> round \<Rightarrow> ChatResponse list \<Rightarrow> bool" where
  "toolsRequested rt st stream =
     (toolCallsMap (roundEnd rt st stream) \<noteq> [] \<and>
      eligibleToolCalls (rangeOrder rt) (toolCallsMap (roundEnd rt st stream)) \<noteq> [] \<and>
      (list_ex Done stream \<longrightarrow> finishReason (roundEnd rt st stream) = ''tool_calls''))"

text \<open>The test of line 170, and the frames of the responses that pass it.\<close>

definition forwards :: "ChatResponse \<Rightarrow> bool" where
  "forwards response =
     (Content (Message response) \<noteq> '''' \<or> ToolCalls (Message response) \<noteq> [])"

definition forwardedFrames :: "ChatResponse list \<Rightarrow> frame list" where
  "forwardedFrames stream = map Forwarded (filter forwards stream)"

text \<open>
  The request of the round after the tools: the history with the assistant's message
  and the tools' messages.
\<close>

definition continued :: "ChatHandler \<Rightarrow> ChatRequest \<Rightarrow> string \<Rightarrow> ToolCall list \<Rightarrow> ChatRequest" where
  "continued h req content toolCalls =
     req\<lparr>Messages := Messages req @
            assistantMessage content toolCalls # map (toolMessage h) toolCalls\<rparr>"

text \<open>
  What the first round does at its end (lines 108-124 and 184-202), with the variables
  \<open>st\<close>; \<open>chanClosed\<close> tells whether the channel was closed or a \<open>done\<close>
  response received.
\<close>

definition atRoundEnd ::
  "ChatHandler \<Rightarrow> runtime \<Rightarrow> nat \<Rightarrow> ChatRequest \<Rightarrow> round \<Rightarrow> bool \<Rightarrow> effect list \<times> ChatRequest" where
  "atRoundEnd h rt n req st chanClosed =
     (if toolCallsMap st \<noteq> [] \<and> eligibleToolCalls (rangeOrder rt) (toolCallsMap st) \<noteq> [] \<and>
         (\<not> chanClosed \<longrightarrow> finishReason st = ''tool_calls'')
      then executeAndContinue h rt (Suc n) req (assistantContent st)
             (eligibleToolCalls (rangeOrder rt) (toolCallsMap st))
      else ([], req))"

text \<open>A request, a runtime and a handler for the examples.\<close>

definition exampleRequest :: ChatRequest where
  "exampleRequest =
     \<lparr>ReqModel = ''m'',
      Messages = [\<lparr>Role = ''user'', Content = ''hi'', ToolCallID = '''', ToolCalls = []\<rparr>],
      Stream = True, Tools = []\<rparr>"

text \<open>No cancellation, no marshalling error, the given order of \<open>range\<close>.\<close>

definition exampleRuntime :: "order \<Rightarrow> runtime" where
  "exampleRuntime ord = \<lparr>ctxDone = (\<lambda>n. False), marshalFails = (\<lambda>response. False), rangeOrder = ord\<rparr>"

text \<open>
  The backend answers the first request (one message) with the stream \<open>first\<close> and
  every later request with the stream \<open>second\<close>; the tools are those of
  \<open>exampleExecutor\<close>.
\<close>

definition exampleHandler :: "ChatResponse list \<Rightarrow> ChatResponse list \<Rightarrow> ChatHandler" where
  "exampleHandler first second =
     \<lparr>ollamaClient = (\<lambda>req. if length (Messages req) \<le> 1 then Inr first else Inr second),
      availableTools = [''web_search'', ''get_news''],
      toolExecutor = ExecuteToolCall exampleExecutor\<rparr>"

text \<open>A response with the given content, tool calls, done flag and reason.\<close>

definition response :: "string \<Rightarrow> ToolCall list \<Rightarrow> bool \<Rightarrow> string \<Rightarrow> ChatResponse" where
  "response content toolCalls done reason =
     \<lparr>Model = ''m'',
      Message = \<lparr>Role = ''assistant'', Content = content, ToolCallID = '''', ToolCalls = toolCalls\<rparr>,
      Done = done, DoneReason = reason, Error = ''''\<rparr>"

text \<open>A response that carries one complete tool call with the arguments \<open>{}\<close>.\<close>

definition toolCallResponse :: "string \<Rightarrow> string \<Rightarrow> bool \<Rightarrow> string \<Rightarrow> ChatResponse" where
  "toolCallResponse i name done reason = response '''' [chunk i ''function'' name ''{}''] done reason"

text \<open>
  A decoder for the examples. The text \<open>stop\<close> is a chunk with an empty delta and
  the finish reason \<open>stop\<close>, the text \<open>bad\<close> does not parse, and any other text
  is a chunk whose delta has that text as its content and no finish reason.
\<close>

definition exampleUnmarshal :: "string \<Rightarrow> string + OpenAIChatChunk" where
  "exampleUnmarshal s =
     (if s = ''bad'' then Inl ''unexpected end of JSON input''
      else Inr \<lparr>ChunkModel = ''m'',
                Choices =
                  [\<lparr>Delta = \<lparr>Role = ''assistant'', Content = (if s = ''stop'' then '''' else s),
                              ToolCallID = '''', ToolCalls = []\<rparr>,
                    FinishReason = (if s = ''stop'' then Some ''stop'' else None)\<rparr>]\<rparr>)"

section \<open>The accumulator: the map invariant\<close>

lemma mergeInto_fields:
  "ID (mergeInto e tc) = ID tc"
  "Name (Function (mergeInto e tc)) =
     (if Name (Function tc) \<noteq> '''' then Name (Function tc) else Name (Function e))"
  "Arguments (Function (mergeInto e tc)) = Arguments (Function e) @ Arguments (Function tc)"
  "Type (mergeInto e tc) = (if Type tc \<noteq> '''' then Type tc else Type e)"
  by (simp_all add: mergeInto_def appendArguments_def Let_def)

lemma appendArguments_fields:
  "ID (appendArguments e s) = ID e"
  "Name (Function (appendArguments e s)) = Name (Function e)"
  "Arguments (Function (appendArguments e s)) = Arguments (Function e) @ s"
  "Type (appendArguments e s) = Type e"
  by (simp_all add: appendArguments_def)

lemma range_order_set: "range_order ord \<Longrightarrow> set (ord m) = set m"
  by (metis range_order_def set_mset_mset)

lemma range_order_single: "range_order ord \<Longrightarrow> ord [x] = [x]"
  by (metis range_order_def mset.simps mset_single_iff_right)

lemma range_order_id: "range_order id"
  by (simp add: range_order_def)

lemma range_order_rev: "range_order rev"
  by (simp add: range_order_def)

lemma keyed_Nil: "keyed []"
  by (simp add: keyed_def)

lemma keyed_map_of: "keyed m \<Longrightarrow> map_of m k = Some e \<Longrightarrow> ID e = k \<and> k \<noteq> ''''"
  by (auto simp: keyed_def list_all_iff dest: map_of_SomeD)

lemma keyed_update:
  assumes "keyed m" "ID v = k" "k \<noteq> ''''"
  shows "keyed (AList.update k v m)"
proof -
  have "distinct (map fst (AList.update k v m))"
    using assms by (simp add: keyed_def distinct_update)
  moreover have "set (AList.update k v m) \<subseteq> insert (k, v) (set m)"
    by (induction m) auto
  ultimately show ?thesis
    using assms by (auto simp: keyed_def list_all_iff)
qed

lemma keyed_mergeByID: "keyed m \<Longrightarrow> ID tc \<noteq> '''' \<Longrightarrow> keyed (mergeByID m tc)"
  by (simp add: mergeByID_def keyed_update mergeInto_fields)

lemma find_range:
  assumes "range_order ord" "keyed m" "find P (map snd (ord m)) = Some e"
  shows "map_of m (ID e) = Some e \<and> P e \<and> ID e \<noteq> ''''"
proof -
  have "e \<in> set (map snd (ord m))" "P e"
    using assms(3) by (auto simp: find_Some_iff)
  moreover have "set (ord m) = set m"
    using assms(1) by (rule range_order_set)
  ultimately obtain k where k: "(k, e) \<in> set m" and p: "P e"
    by auto
  have "map_of m k = Some e"
    using k assms(2) by (simp add: keyed_def)
  then show ?thesis
    using keyed_map_of [OF assms(2)] p by auto
qed

text \<open>
  An argument-only chunk either finds no eligible record and changes nothing, or its
  fragment is appended to one eligible record of the map.
\<close>

lemma appendToFirst_cases:
  assumes "range_order ord" "keyed m"
  shows "appendToFirst ord m tc = m \<and> \<not> list_ex eligible (map snd m) \<or>
    (\<exists>e. map_of m (ID e) = Some e \<and> eligible e \<and>
         appendToFirst ord m tc =
           AList.update (ID e) (appendArguments e (Arguments (Function tc))) m)"
proof (cases "find (\<lambda>existing. ID existing \<noteq> '''' \<and> Name (Function existing) \<noteq> '''')
                (map snd (ord m))")
  case None
  have "set (ord m) = set m"
    using assms(1) by (rule range_order_set)
  then have "\<not> list_ex eligible (map snd m)"
    using None by (auto simp: find_None_iff list_ex_iff eligible_def)
  then show ?thesis
    using None by (simp add: appendToFirst_def)
next
  case (Some e)
  from find_range [OF assms Some] show ?thesis
    using Some by (auto simp: appendToFirst_def eligible_def)
qed

lemma keyed_appendToFirst: "range_order ord \<Longrightarrow> keyed m \<Longrightarrow> keyed (appendToFirst ord m tc)"
  using appendToFirst_cases [of ord m tc]
  by (auto simp: appendArguments_fields dest: keyed_map_of intro!: keyed_update)

lemma keyed_collectToolCall: "range_order ord \<Longrightarrow> keyed m \<Longrightarrow> keyed (collectToolCall ord m tc)"
  by (simp add: collectToolCall_def keyed_mergeByID keyed_appendToFirst)

lemma keyed_collectToolCalls:
  "range_order ord \<Longrightarrow> keyed m \<Longrightarrow> keyed (collectToolCalls ord m tcs)"
  by (induction tcs arbitrary: m) (simp_all add: collectToolCalls_def keyed_collectToolCall)

lemma collectToolCalls_append:
  "collectToolCalls ord m (xs @ ys) = collectToolCalls ord (collectToolCalls ord m xs) ys"
  by (simp add: collectToolCalls_def)

section \<open>The accumulator: one record per call ID\<close>

lemma keys_mergeByID: "set (map fst (mergeByID m tc)) = insert (ID tc) (set (map fst m))"
  by (auto simp: mergeByID_def update_keys)

lemma distinct_mergeByID: "distinct (map fst m) \<Longrightarrow> distinct (map fst (mergeByID m tc))"
  by (simp add: mergeByID_def distinct_update)

lemma collectToolCalls_ids:
  "list_all (\<lambda>tc. ID tc \<noteq> '''') tcs \<Longrightarrow> collectToolCalls ord m tcs = foldl mergeByID m tcs"
  by (induction tcs arbitrary: m) (simp_all add: collectToolCalls_def collectToolCall_def)

lemma keys_foldl_mergeByID:
  "distinct (map fst m) \<Longrightarrow>
   distinct (map fst (foldl mergeByID m tcs)) \<and>
   set (map fst (foldl mergeByID m tcs)) = set (map fst m) \<union> ID ` set tcs"
proof (induction tcs arbitrary: m)
  case Nil
  then show ?case by simp
next
  case (Cons tc tcs)
  have d: "distinct (map fst (mergeByID m tc))"
    using Cons.prems by (rule distinct_mergeByID)
  have "set (map fst (mergeByID m tc)) = insert (ID tc) (set (map fst m))"
    by (rule keys_mergeByID)
  then show ?case
    using Cons.IH [OF d] by (auto simp del: set_map)
qed

text \<open>
  Claim C6. When every delta of a sequence carries a non-empty call ID, the accumulated
  map has distinct keys and as many records as there are distinct call IDs in the
  sequence, whatever the order of \<open>range\<close>.
\<close>

theorem record_count_is_distinct_ids:
  assumes "list_all (\<lambda>tc. ID tc \<noteq> '''') deltas"
  shows "distinct (map fst (collectToolCalls ord [] deltas)) \<and>
         length (collectToolCalls ord [] deltas) = card (ID ` set deltas)"
proof -
  let ?m = "foldl mergeByID [] deltas"
  have k: "distinct (map fst ?m) \<and>
           set (map fst ?m) = set (map fst ([]::tool_call_map)) \<union> ID ` set deltas"
    by (rule keys_foldl_mergeByID) simp
  have "card (set (map fst ?m)) = length (map fst ?m)"
    using k by (intro distinct_card) simp
  then have "length ?m = card (ID ` set deltas)"
    using k by simp
  then show ?thesis
    using k assms by (simp add: collectToolCalls_ids)
qed

theorem record_count_is_distinct_ids_witness:
  "list_all (\<lambda>tc. ID tc \<noteq> '''')
     [chunk ''a'' ''function'' ''f'' '''', chunk ''b'' '''' ''g'' ''{'', chunk ''a'' '''' '''' ''{}''] \<and>
   length (collectToolCalls rev []
     [chunk ''a'' ''function'' ''f'' '''', chunk ''b'' '''' ''g'' ''{'', chunk ''a'' '''' '''' ''{}'']) = 2 \<and>
   card (ID ` set
     [chunk ''a'' ''function'' ''f'' '''', chunk ''b'' '''' ''g'' ''{'', chunk ''a'' '''' '''' ''{}'']) = 2"
proof -
  let ?ds = "[chunk ''a'' ''function'' ''f'' '''', chunk ''b'' '''' ''g'' ''{'', chunk ''a'' '''' '''' ''{}'']"
  have h: "list_all (\<lambda>tc. ID tc \<noteq> '''') ?ds"
    by (simp add: chunk_def)
  have "ID ` set ?ds = {''a'', ''b''}"
    by (auto simp: chunk_def)
  then have c: "card (ID ` set ?ds) = 2"
    by simp
  from record_count_is_distinct_ids [OF h, of rev] show ?thesis
    using h c by simp
qed

section \<open>The accumulator: records only grow\<close>

lemma grows_refl: "ID e \<noteq> '''' \<Longrightarrow> grows e e"
  by (simp add: grows_def)

lemma grows_trans: "grows a b \<Longrightarrow> grows b c \<Longrightarrow> grows a c"
  by (auto simp: grows_def)

lemma grows_mergeByID:
  assumes "keyed m" "map_of m k = Some e"
  shows "\<exists>e'. map_of (mergeByID m tc) k = Some e' \<and> grows e e'"
proof -
  have i: "ID e = k \<and> k \<noteq> ''''"
    using assms by (rule keyed_map_of)
  show ?thesis
  proof (cases "k = ID tc")
    case True
    then show ?thesis
      using i assms(2) by (simp add: mergeByID_def update_conv' lookup_def grows_def mergeInto_fields)
  next
    case False
    then show ?thesis
      using i assms(2) by (simp add: mergeByID_def update_conv' grows_def)
  qed
qed

lemma grows_appendToFirst:
  assumes "range_order ord" "keyed m" "map_of m k = Some e"
  shows "\<exists>e'. map_of (appendToFirst ord m tc) k = Some e' \<and> grows e e'"
proof -
  have i: "ID e = k \<and> k \<noteq> ''''"
    using assms(2,3) by (rule keyed_map_of)
  from appendToFirst_cases [OF assms(1,2), of tc] show ?thesis
  proof
    assume "appendToFirst ord m tc = m \<and> \<not> list_ex eligible (map snd m)"
    then show ?thesis
      using assms(3) i by (simp add: grows_def)
  next
    assume "\<exists>x. map_of m (ID x) = Some x \<and> eligible x \<and>
      appendToFirst ord m tc = AList.update (ID x) (appendArguments x (Arguments (Function tc))) m"
    then obtain x where x: "map_of m (ID x) = Some x"
      "appendToFirst ord m tc = AList.update (ID x) (appendArguments x (Arguments (Function tc))) m"
      by blast
    show ?thesis
    proof (cases "k = ID x")
      case True
      then have "x = e"
        using x(1) assms(3) by simp
      then show ?thesis
        using True x(2) i by (simp add: update_conv' grows_def appendArguments_fields)
    next
      case False
      then show ?thesis
        using x(2) assms(3) i by (simp add: update_conv' grows_def)
    qed
  qed
qed

lemma grows_collectToolCall:
  "range_order ord \<Longrightarrow> keyed m \<Longrightarrow> map_of m k = Some e \<Longrightarrow>
   \<exists>e'. map_of (collectToolCall ord m tc) k = Some e' \<and> grows e e'"
  using grows_mergeByID [of m k e tc] grows_appendToFirst [of ord m k e tc]
  by (auto simp: collectToolCall_def dest: keyed_map_of intro: grows_refl)

lemma grows_collectToolCalls:
  "range_order ord \<Longrightarrow> keyed m \<Longrightarrow> map_of m k = Some e \<Longrightarrow>
   \<exists>e'. map_of (collectToolCalls ord m tcs) k = Some e' \<and> grows e e'"
proof (induction tcs arbitrary: m e)
  case Nil
  then show ?case
    by (auto simp: collectToolCalls_def dest: keyed_map_of intro: grows_refl)
next
  case (Cons tc tcs)
  obtain e1 where e1: "map_of (collectToolCall ord m tc) k = Some e1" "grows e e1"
    using grows_collectToolCall [OF Cons.prems] by blast
  have "keyed (collectToolCall ord m tc)"
    using Cons.prems(1,2) by (rule keyed_collectToolCall)
  from Cons.IH [OF Cons.prems(1) this e1(1)] obtain e' where
    "map_of (collectToolCalls ord (collectToolCall ord m tc) tcs) k = Some e'" "grows e1 e'"
    by blast
  then show ?case
    using e1(2) by (auto simp: collectToolCalls_def intro: grows_trans)
qed

text \<open>
  Claim C10. Accumulation preserves eligibility. A record \<open>e\<close> stored under \<open>k\<close> after
  the deltas \<open>ds\<close> is still stored under \<open>k\<close> after any further deltas \<open>ds'\<close>, as a
  record \<open>e'\<close> with the same non-empty ID, with a non-empty name if \<open>e\<close> had one, and
  with arguments that extend those of \<open>e\<close>; so if \<open>e\<close> was eligible, \<open>e'\<close> is.
\<close>

theorem accumulation_preserves_eligibility:
  assumes "range_order ord" "map_of (collectToolCalls ord [] ds) k = Some e"
  shows "\<exists>e'. map_of (collectToolCalls ord [] (ds @ ds')) k = Some e' \<and> grows e e' \<and>
     (eligible e \<longrightarrow> eligible e')"
proof -
  have "keyed (collectToolCalls ord [] ds)"
    using assms(1) keyed_Nil by (rule keyed_collectToolCalls)
  from grows_collectToolCalls [OF assms(1) this assms(2), of ds'] show ?thesis
    by (auto simp: collectToolCalls_append grows_def eligible_def)
qed

lemma collect_example:
  "collectToolCalls id [] [chunk ''a'' ''function'' ''f'' ''{'']
     = [(''a'', chunk ''a'' ''function'' ''f'' ''{'')]"
  "collectToolCalls id [] ([chunk ''a'' ''function'' ''f'' ''{''] @
      [chunk '''' '''' '''' ''}'', chunk ''a'' '''' '''' '' '', chunk ''b'' '''' '''' ''x''])
     = [(''a'', chunk ''a'' ''function'' ''f'' ''{} ''), (''b'', chunk ''b'' '''' '''' ''x'')]"
  by (simp_all add: collectToolCalls_def collectToolCall_def chunk_def mergeByID_def mergeInto_def
      lookup_def zeroToolCall_def appendToFirst_def appendArguments_def)

theorem accumulation_preserves_eligibility_witness:
  "range_order id \<and>
   map_of (collectToolCalls id [] [chunk ''a'' ''function'' ''f'' ''{'']) ''a''
     = Some (chunk ''a'' ''function'' ''f'' ''{'') \<and>
   eligible (chunk ''a'' ''function'' ''f'' ''{'') \<and>
   (\<exists>e'. map_of (collectToolCalls id [] ([chunk ''a'' ''function'' ''f'' ''{''] @
            [chunk '''' '''' '''' ''}'', chunk ''a'' '''' '''' '' '', chunk ''b'' '''' '''' ''x''])) ''a''
          = Some e' \<and>
        grows (chunk ''a'' ''function'' ''f'' ''{'') e' \<and> eligible e')"
proof -
  have m: "map_of (collectToolCalls id [] [chunk ''a'' ''function'' ''f'' ''{'']) ''a''
     = Some (chunk ''a'' ''function'' ''f'' ''{'')"
    by (simp add: collect_example(1))
  have e: "eligible (chunk ''a'' ''function'' ''f'' ''{'')"
    by (simp add: eligible_def chunk_def)
  from accumulation_preserves_eligibility [OF range_order_id m,
      of "[chunk '''' '''' '''' ''}'', chunk ''a'' '''' '''' '' '', chunk ''b'' '''' '''' ''x'']"]
  show ?thesis
    using range_order_id m e by auto
qed

section \<open>The accumulator: argument fragments without an ID\<close>

lemma anonymous_fragment_target:
  assumes "range_order ord" "m = collectToolCalls ord [] ds" "ID tc = ''''"
    "Name (Function tc) = ''''" "Arguments (Function tc) \<noteq> ''''" "list_ex eligible (map snd m)"
  shows "\<exists>e. map_of m (ID e) = Some e \<and> eligible e \<and>
      map_of (collectToolCall ord m tc) = (map_of m)(ID e \<mapsto> appendArguments e (Arguments (Function tc)))"
proof -
  have "keyed m"
    unfolding assms(2) using assms(1) keyed_Nil by (rule keyed_collectToolCalls)
  from appendToFirst_cases [OF assms(1) this, of tc] assms(3-6) show ?thesis
    by (auto simp: collectToolCall_def update_conv')
qed

lemma xyz_example:
  assumes "range_order ord"
  shows "collectToolCalls ord []
      [chunk ''a'' t ''f'' '''', chunk '''' t1 '''' ''x'', chunk '''' t2 '''' ''y'', chunk '''' t3 '''' ''z'']
    = [(''a'', chunk ''a'' t ''f'' ''xyz'')]"
  by (simp add: collectToolCalls_def collectToolCall_def chunk_def mergeByID_def mergeInto_def
      lookup_def zeroToolCall_def appendToFirst_def appendArguments_def
      range_order_single [OF assms])

text \<open>
  Claim C5, as stated, fails: a delta with an empty ID and a non-empty argument fragment
  that also carries a function name is dropped (line 144 asks for an empty name). Here
  the fragment \<open>x\<close> does not reach the record \<open>a\<close>, which is eligible.
\<close>

theorem named_fragment_is_dropped:
  "ID (chunk '''' '''' ''f'' ''x'') = '''' \<and>
   Arguments (Function (chunk '''' '''' ''f'' ''x'')) \<noteq> '''' \<and>
   eligible (chunk ''a'' ''function'' ''f'' '''') \<and>
   collectToolCalls id [] [chunk ''a'' ''function'' ''f'' '''']
     = [(''a'', chunk ''a'' ''function'' ''f'' '''')] \<and>
   collectToolCalls id [] [chunk ''a'' ''function'' ''f'' '''', chunk '''' '''' ''f'' ''x'']
     = [(''a'', chunk ''a'' ''function'' ''f'' '''')]"
  by (simp add: collectToolCalls_def collectToolCall_def chunk_def mergeByID_def mergeInto_def
      lookup_def zeroToolCall_def eligible_def)

text \<open>
  Claim C5, amended. For every order of \<open>range\<close>: the deltas \<open>id = a, name = f\<close>
  followed by the ID-less, name-less fragments \<open>x\<close>, \<open>y\<close>, \<open>z\<close> give the single
  record \<open>a\<close> with arguments \<open>xyz\<close>. In general, after any deltas \<open>ds\<close>, a delta
  with empty ID, empty name and a non-empty fragment changes exactly one stored record
  \<open>e\<close> that has a non-empty ID and name, when there is one: the fragment is appended to
  the arguments of \<open>e\<close> and every other record is left as it was.
\<close>

theorem anonymous_fragment_appended:
  assumes "range_order ord"
  shows "collectToolCalls ord []
      [chunk ''a'' t ''f'' '''', chunk '''' t1 '''' ''x'', chunk '''' t2 '''' ''y'', chunk '''' t3 '''' ''z'']
      = [(''a'', chunk ''a'' t ''f'' ''xyz'')] \<and>
    (ID tc = '''' \<and> Name (Function tc) = '''' \<and> Arguments (Function tc) \<noteq> '''' \<and>
     list_ex eligible (map snd (collectToolCalls ord [] ds)) \<longrightarrow>
     (\<exists>e. map_of (collectToolCalls ord [] ds) (ID e) = Some e \<and> eligible e \<and>
          map_of (collectToolCall ord (collectToolCalls ord [] ds) tc) =
            (map_of (collectToolCalls ord [] ds))
              (ID e \<mapsto> appendArguments e (Arguments (Function tc)))))"
  using xyz_example [OF assms] anonymous_fragment_target [OF assms refl] by blast

theorem anonymous_fragment_appended_witness:
  "range_order id \<and>
   ID (chunk '''' '''' '''' ''}'') = '''' \<and>
   Name (Function (chunk '''' '''' '''' ''}'')) = '''' \<and>
   Arguments (Function (chunk '''' '''' '''' ''}'')) \<noteq> '''' \<and>
   list_ex eligible (map snd (collectToolCalls id [] [chunk ''a'' ''function'' ''f'' ''{''])) \<and>
   (\<exists>e. map_of (collectToolCalls id [] [chunk ''a'' ''function'' ''f'' ''{'']) (ID e) = Some e \<and>
        eligible e \<and>
        map_of (collectToolCall id (collectToolCalls id [] [chunk ''a'' ''function'' ''f'' ''{''])
                  (chunk '''' '''' '''' ''}'')) =
          (map_of (collectToolCalls id [] [chunk ''a'' ''function'' ''f'' ''{'']))
            (ID e \<mapsto> appendArguments e (Arguments (Function (chunk '''' '''' '''' ''}'')))))"
proof -
  have p: "ID (chunk '''' '''' '''' ''}'') = ''''"
    "Name (Function (chunk '''' '''' '''' ''}'')) = ''''"
    "Arguments (Function (chunk '''' '''' '''' ''}'')) \<noteq> ''''"
    by (simp_all add: chunk_def)
  have l: "list_ex eligible (map snd (collectToolCalls id [] [chunk ''a'' ''function'' ''f'' ''{'']))"
    unfolding collect_example(1) by (simp add: eligible_def chunk_def)
  from anonymous_fragment_appended [OF range_order_id,
      of _ _ _ _ "chunk '''' '''' '''' ''}''" "[chunk ''a'' ''function'' ''f'' ''{'']"]
  show ?thesis
    using range_order_id p l by blast
qed

section \<open>The tool executor: argument errors\<close>

text \<open>
  Claim C9. Whatever the tool name, registered or not, arguments that do not parse give
  the invalid-arguments error, which is not the unknown-tool error: the arguments are
  parsed before the name is looked at.
\<close>

theorem invalid_arguments_before_dispatch:
  assumes "unmarshalMap e arguments = Inl err"
  shows "ExecuteToolCall e name arguments = Inl (''invalid arguments: '' @ err) \<and>
         ExecuteToolCall e name arguments \<noteq> Inl (''unknown tool: '' @ name)"
  using assms by (simp add: ExecuteToolCall_def)

theorem invalid_arguments_before_dispatch_witness:
  "unmarshalMap exampleExecutor ''invalid json'' = Inl ''invalid character'' \<and>
   ExecuteToolCall exampleExecutor ''unknown_tool'' ''invalid json''
     = Inl ''invalid arguments: invalid character'' \<and>
   ExecuteToolCall exampleExecutor ''unknown_tool'' ''invalid json''
     \<noteq> Inl ''unknown tool: unknown_tool''"
proof -
  have h: "unmarshalMap exampleExecutor ''invalid json'' = Inl ''invalid character''"
    by (simp add: exampleExecutor_def)
  from invalid_arguments_before_dispatch [OF h, of "''unknown_tool''"] show ?thesis
    using h by simp
qed

lemma showNat_1: "showNat (Suc 0) = ''1''"
  by code_simp

text \<open>
  Claim C8, as stated, fails for \<open>get_news\<close>: with the arguments \<open>{}\<close>, which have
  no \<open>topic\<close>, the tool runs and fetches the news of the substituted topic \<open>world\<close>.
\<close>

theorem get_news_without_topic_runs:
  "unmarshalMap exampleExecutor ''{}'' = Inr Map.empty \<and>
   ExecuteToolCall exampleExecutor ''get_news'' ''{}'' =
     Inr (''Latest world news:'' @ [CHR 0x0A, CHR 0x0A] @
          ''1. **world**'' @ [CHR 0x0A] @
          ''   Source: s'' @ [CHR 0x0A] @
          ''   Published: p'' @ [CHR 0x0A] @
          ''   Read more: l'' @ [CHR 0x0A, CHR 0x0A])"
  by (simp add: ExecuteToolCall_def executeGetNews_def exampleExecutor_def formatArticle_def
      enumerate_eq_zip showNat_1)

text \<open>
  Claim C8, amended. Let the arguments decode to an object \<open>args\<close>. Without a
  \<open>query\<close>, \<open>web_search\<close> fails with the error that the query parameter is required.
  When the decoded argument struct has an empty \<open>query_type\<close> (as it has when the
  object gives none), \<open>analyze_portfolio\<close> fails with the error that \<open>query_type\<close>
  is required. Without a \<open>topic\<close>, \<open>get_news\<close> does not fail for that: it does
  what it does for the topic \<open>world\<close>.
\<close>

theorem missing_required_field:
  assumes "unmarshalMap e arguments = Inr args"
  shows "(args ''query'' = None \<longrightarrow>
            ExecuteToolCall e ''web_search'' arguments = Inl ''query parameter is required'') \<and>
         (unmarshalArgs e arguments = Inr pa \<and> QueryType pa = '''' \<longrightarrow>
            ExecuteToolCall e ''analyze_portfolio'' arguments = Inl ''query_type is required'') \<and>
         (args ''topic'' = None \<longrightarrow>
            ExecuteToolCall e ''get_news'' arguments =
              executeGetNews e (args(''topic'' \<mapsto> JString ''world'')))"
  using assms
  by (simp add: ExecuteToolCall_def executeWebSearch_def executeAnalyzePortfolio_def
      executeGetNews_def)

theorem missing_required_field_witness:
  "unmarshalMap exampleExecutor ''{}'' = Inr Map.empty \<and>
   unmarshalArgs exampleExecutor ''{}'' = Inr \<lparr>QueryType = '''', FocusArea = ''''\<rparr> \<and>
   ExecuteToolCall exampleExecutor ''web_search'' ''{}'' = Inl ''query parameter is required'' \<and>
   ExecuteToolCall exampleExecutor ''analyze_portfolio'' ''{}'' = Inl ''query_type is required'' \<and>
   ExecuteToolCall exampleExecutor ''get_news'' ''{}'' =
     executeGetNews exampleExecutor [''topic'' \<mapsto> JString ''world'']"
proof -
  have h: "unmarshalMap exampleExecutor ''{}'' = Inr Map.empty"
    by (simp add: exampleExecutor_def)
  have a: "unmarshalArgs exampleExecutor ''{}'' = Inr \<lparr>QueryType = '''', FocusArea = ''''\<rparr>"
    by (simp add: exampleExecutor_def)
  from missing_required_field [OF h, of "\<lparr>QueryType = '''', FocusArea = ''''\<rparr>"] show ?thesis
    using h a by simp
qed

section \<open>The chat handler: the shape of a run\<close>

lemma executeToolCalls_eq:
  "executeToolCalls h req tcs =
     (map execEffect tcs, req\<lparr>Messages := Messages req @ map (toolMessage h) tcs\<rparr>)"
  by (induction tcs arbitrary: req) (simp_all add: execEffect_def toolMessage_def Let_def)

lemma executeAndContinue_eq:
  "executeAndContinue h rt n req content tcs =
     (map execEffect tcs @ Call (continued h req content tcs) #
        (case ollamaClient h (continued h req content tcs) of
           Inl err \<Rightarrow> [Write (ErrorFrame (''Failed to get final response: '' @ err))]
         | Inr stream \<Rightarrow> streamFinal rt n stream),
      continued h req content tcs)"
  by (simp add: executeAndContinue_def executeToolCalls_eq continued_def assistantMessage_def
      split: sum.splits)

text \<open>The final round only writes frames, and only its last frame can be terminal.\<close>

lemma streamFinal_writes:
  "\<exists>frames. streamFinal rt n stream = map Write frames \<and>
     list_all (\<lambda>f. \<not> terminal f) (butlast frames)"
proof (induction stream arbitrary: n)
  case Nil
  show ?case
    by (cases "ctxDone rt n")
      (auto intro: exI [of _ "[ErrorFrame ''context cancelled'']"] exI [of _ "[]"])
next
  case (Cons r rs)
  obtain frames where f: "streamFinal rt (Suc n) rs = map Write frames"
    "list_all (\<lambda>f. \<not> terminal f) (butlast frames)"
    using Cons.IH by blast
  consider "ctxDone rt n" | "\<not> ctxDone rt n" "marshalFails rt r"
    | "\<not> ctxDone rt n" "\<not> marshalFails rt r" "Done r"
    | "\<not> ctxDone rt n" "\<not> marshalFails rt r" "\<not> Done r"
    by blast
  then show ?case
  proof cases
    case 1
    then show ?thesis
      by (auto intro: exI [of _ "[ErrorFrame ''context cancelled'']"])
  next
    case 2
    then show ?thesis
      by (auto intro: exI [of _ "[ErrorFrame ''failed to marshal response'']"])
  next
    case 3
    then show ?thesis
      by (auto intro: exI [of _ "[Forwarded r]"])
  next
    case 4
    then show ?thesis
      using f by (auto intro!: exI [of _ "Forwarded r # frames"])
  qed
qed

lemma streamFinal_no_cancel:
  "\<forall>i. \<not> ctxDone rt i \<Longrightarrow> streamFinal rt n stream = streamFinal rt 0 stream"
proof (induction stream arbitrary: n)
  case Nil
  then show ?case by simp
next
  case (Cons r rs)
  have "streamFinal rt (Suc n) rs = streamFinal rt 0 rs" "streamFinal rt (Suc 0) rs = streamFinal rt 0 rs"
    using Cons by blast+
  then show ?case using Cons.prems by simp
qed

lemma streamLoop_Nil:
  "streamLoop h rt req n st [] =
     (if ctxDone rt n then ([Write (ErrorFrame ''context cancelled'')], req)
      else atRoundEnd h rt n req st True)"
  by (simp add: atRoundEnd_def Let_def)

lemma streamLoop_cancel:
  "ctxDone rt n \<Longrightarrow>
   streamLoop h rt req n st (r # rs) = ([Write (ErrorFrame ''context cancelled'')], req)"
  by simp

lemma streamLoop_marshal:
  "\<not> ctxDone rt n \<Longrightarrow> forwards r \<Longrightarrow> marshalFails rt r \<Longrightarrow>
   streamLoop h rt req n st (r # rs) = ([Write (ErrorFrame ''failed to marshal response'')], req)"
  by (simp add: forwards_def Let_def)

lemma streamLoop_done:
  "\<not> ctxDone rt n \<Longrightarrow> \<not> (forwards r \<and> marshalFails rt r) \<Longrightarrow> Done r \<Longrightarrow>
   streamLoop h rt req n st (r # rs) =
     (map Write (forwardedFrames [r]) @ fst (atRoundEnd h rt n req (collect rt st r) False),
      snd (atRoundEnd h rt n req (collect rt st r) False))"
  by (auto simp: forwards_def forwardedFrames_def atRoundEnd_def Let_def split: prod.splits)

lemma streamLoop_more:
  "\<not> ctxDone rt n \<Longrightarrow> \<not> (forwards r \<and> marshalFails rt r) \<Longrightarrow> \<not> Done r \<Longrightarrow>
   streamLoop h rt req n st (r # rs) =
     (map Write (forwardedFrames [r]) @ fst (streamLoop h rt req (Suc n) (collect rt st r) rs),
      snd (streamLoop h rt req (Suc n) (collect rt st r) rs))"
  by (auto simp: forwards_def forwardedFrames_def Let_def split: prod.splits)

lemma roundEnd_simps:
  "roundEnd rt st [] = st"
  "Done r \<Longrightarrow> roundEnd rt st (r # rs) = collect rt st r"
  "\<not> Done r \<Longrightarrow> roundEnd rt st (r # rs) = roundEnd rt (collect rt st r) rs"
  by (simp_all add: roundEnd_def)

lemma toolsRequested_simps:
  "toolsRequested rt st [] =
     (toolCallsMap st \<noteq> [] \<and> eligibleToolCalls (rangeOrder rt) (toolCallsMap st) \<noteq> [])"
  "Done r \<Longrightarrow> toolsRequested rt st (r # rs) =
     (toolCallsMap (collect rt st r) \<noteq> [] \<and>
      eligibleToolCalls (rangeOrder rt) (toolCallsMap (collect rt st r)) \<noteq> [] \<and>
      finishReason (collect rt st r) = ''tool_calls'')"
  "\<not> Done r \<Longrightarrow> toolsRequested rt st (r # rs) = toolsRequested rt (collect rt st r) rs"
  by (simp_all add: toolsRequested_def roundEnd_simps)

lemma butlast_append_all:
  "list_all P xs \<Longrightarrow> list_all P (butlast ys) \<Longrightarrow> list_all P (butlast (xs @ ys))"
  by (cases ys) (auto simp: butlast_append list_all_iff dest: in_set_butlastD)

lemma forwardedFrames_one:
  "\<not> Done r \<Longrightarrow> list_all (\<lambda>f. \<not> terminal f) (forwardedFrames [r])"
  "butlast (forwardedFrames [r]) = []"
  by (simp_all add: forwardedFrames_def)

text \<open>
  Every run of the first round's loop, interrupted or not: it writes frames of which
  only the last can be terminal, and then either returns, or the tools were requested
  and it goes on with \<open>executeAndContinue\<close> on the eligible records of the round.
\<close>

lemma streamLoop_shape:
  "\<exists>frames k. list_all (\<lambda>f. \<not> terminal f) (butlast frames) \<and>
     (streamLoop h rt req n st stream = (map Write frames, req) \<or>
      toolsRequested rt st stream \<and>
      streamLoop h rt req n st stream =
        (map Write frames @
           fst (executeAndContinue h rt k req (assistantContent (roundEnd rt st stream))
                  (eligibleToolCalls (rangeOrder rt) (toolCallsMap (roundEnd rt st stream)))),
         snd (executeAndContinue h rt k req (assistantContent (roundEnd rt st stream))
                  (eligibleToolCalls (rangeOrder rt) (toolCallsMap (roundEnd rt st stream))))))"
  (is "\<exists>frames k. ?P frames k n st stream")
proof (induction stream arbitrary: n st)
  case Nil
  show ?case
  proof (cases "ctxDone rt n")
    case True
    then have "?P [ErrorFrame ''context cancelled''] 0 n st []"
      by (simp add: streamLoop_Nil del: streamLoop.simps)
    then show ?thesis by blast
  next
    case False
    then have "?P [] (Suc n) n st []"
      by (simp add: streamLoop_Nil atRoundEnd_def toolsRequested_simps roundEnd_simps
          del: streamLoop.simps)
    then show ?thesis by blast
  qed
next
  case (Cons r rs)
  consider "ctxDone rt n" | "\<not> ctxDone rt n" "forwards r \<and> marshalFails rt r"
    | "\<not> ctxDone rt n" "\<not> (forwards r \<and> marshalFails rt r)" "Done r"
    | "\<not> ctxDone rt n" "\<not> (forwards r \<and> marshalFails rt r)" "\<not> Done r"
    by blast
  then show ?case
  proof cases
    case 1
    then have "?P [ErrorFrame ''context cancelled''] 0 n st (r # rs)"
      by (simp add: streamLoop_cancel del: streamLoop.simps)
    then show ?thesis by blast
  next
    case 2
    then have "?P [ErrorFrame ''failed to marshal response''] 0 n st (r # rs)"
      by (simp add: streamLoop_marshal del: streamLoop.simps)
    then show ?thesis by blast
  next
    case 3
    then have "?P (forwardedFrames [r]) (Suc n) n st (r # rs)"
      by (simp add: streamLoop_done atRoundEnd_def toolsRequested_simps roundEnd_simps
          forwardedFrames_one del: streamLoop.simps)
    then show ?thesis by blast
  next
    case 4
    obtain frames k where f: "?P frames k (Suc n) (collect rt st r) rs"
      using Cons.IH by blast
    have b: "list_all (\<lambda>f. \<not> terminal f) (butlast (forwardedFrames [r] @ frames))"
      using f 4(3) by (intro butlast_append_all forwardedFrames_one) simp_all
    have "?P (forwardedFrames [r] @ frames) k n st (r # rs)"
      using f b 4 by (auto simp: streamLoop_more toolsRequested_simps roundEnd_simps
          simp del: streamLoop.simps)
    then show ?thesis by blast
  qed
qed

lemma executeAndContinue_no_cancel:
  "\<forall>i. \<not> ctxDone rt i \<Longrightarrow>
   executeAndContinue h rt n req content tcs = executeAndContinue h rt 0 req content tcs"
  using streamFinal_no_cancel [of rt n] by (simp add: executeAndContinue_eq split: sum.splits)

text \<open>The run of the first round's loop when nothing interrupts it.\<close>

lemma streamLoop_run:
  assumes "\<forall>i. \<not> ctxDone rt i" "\<forall>r. \<not> marshalFails rt r"
  shows "streamLoop h rt req n st stream =
     (if toolsRequested rt st stream
      then (map Write (forwardedFrames (roundPrefix stream)) @
              fst (executeAndContinue h rt 0 req (assistantContent (roundEnd rt st stream))
                     (eligibleToolCalls (rangeOrder rt) (toolCallsMap (roundEnd rt st stream)))),
            snd (executeAndContinue h rt 0 req (assistantContent (roundEnd rt st stream))
                     (eligibleToolCalls (rangeOrder rt) (toolCallsMap (roundEnd rt st stream)))))
      else (map Write (forwardedFrames (roundPrefix stream)), req))"
proof (induction stream arbitrary: n st)
  case Nil
  show ?case
    using assms(1) executeAndContinue_no_cancel [OF assms(1), of h "Suc n"]
    by (simp add: streamLoop_Nil atRoundEnd_def toolsRequested_simps roundEnd_simps
        forwardedFrames_def del: streamLoop.simps)
next
  case (Cons r rs)
  have c: "\<not> ctxDone rt n" "\<not> (forwards r \<and> marshalFails rt r)"
    using assms by simp_all
  have ff: "forwardedFrames (r # roundPrefix rs) = forwardedFrames [r] @ forwardedFrames (roundPrefix rs)"
    by (simp add: forwardedFrames_def)
  show ?case
  proof (cases "Done r")
    case True
    then show ?thesis
      using executeAndContinue_no_cancel [OF assms(1), of h "Suc n"]
      by (simp add: streamLoop_done [OF c] atRoundEnd_def toolsRequested_simps roundEnd_simps
          del: streamLoop.simps)
  next
    case False
    then show ?thesis
      using Cons.IH [of "Suc n" "collect rt st r"]
      by (simp add: streamLoop_more [OF c] toolsRequested_simps roundEnd_simps ff
          del: streamLoop.simps)
  qed
qed

section \<open>The chat handler: a failing tool\<close>

text \<open>
  Claim C7. When the executor fails on one of the records that \<open>executeAndContinue\<close>
  is given, every record is still executed, the history of the next request holds a
  tool message with that record's call ID and the formatted error as its non-empty
  content, and \<open>ChatStream\<close> is invoked with that history after the executions: the
  conversation goes on to the next generation.
\<close>

theorem failing_tool_is_answered:
  assumes "toolCall \<in> set toolCalls"
    "toolExecutor h (Name (Function toolCall)) (Arguments (Function toolCall)) = Inl err"
  shows "\<exists>rest.
     fst (executeAndContinue h rt n req content toolCalls) =
       map execEffect toolCalls @
       Call (snd (executeAndContinue h rt n req content toolCalls)) # rest \<and>
     \<lparr>Role = ''tool'',
      Content = ''Error executing tool '' @ Name (Function toolCall) @ '': '' @ err,
      ToolCallID = ID toolCall, ToolCalls = []\<rparr>
       \<in> set (Messages (snd (executeAndContinue h rt n req content toolCalls))) \<and>
     ''Error executing tool '' @ Name (Function toolCall) @ '': '' @ err \<noteq> ''''"
proof -
  have "toolMessage h toolCall =
      \<lparr>Role = ''tool'',
       Content = ''Error executing tool '' @ Name (Function toolCall) @ '': '' @ err,
       ToolCallID = ID toolCall, ToolCalls = []\<rparr>"
    using assms(2) by (simp add: toolMessage_def)
  then have "\<lparr>Role = ''tool'',
       Content = ''Error executing tool '' @ Name (Function toolCall) @ '': '' @ err,
       ToolCallID = ID toolCall, ToolCalls = []\<rparr> \<in> toolMessage h ` set toolCalls"
    using assms(1) by (metis imageI)
  then show ?thesis
    by (simp add: executeAndContinue_eq continued_def)
qed

lemma unknown_tool_fails:
  "toolExecutor (exampleHandler first second) ''nope'' ''{}'' = Inl ''unknown tool: nope''"
  by (simp add: exampleHandler_def ExecuteToolCall_def exampleExecutor_def)

theorem failing_tool_is_answered_witness:
  "chunk ''1'' ''function'' ''nope'' ''{}'' \<in> set [chunk ''1'' ''function'' ''nope'' ''{}''] \<and>
   toolExecutor (exampleHandler [] []) ''nope'' ''{}'' = Inl ''unknown tool: nope'' \<and>
   (\<exists>rest.
     fst (executeAndContinue (exampleHandler [] []) (exampleRuntime id) 0 exampleRequest ''''
            [chunk ''1'' ''function'' ''nope'' ''{}'']) =
       map execEffect [chunk ''1'' ''function'' ''nope'' ''{}''] @
       Call (snd (executeAndContinue (exampleHandler [] []) (exampleRuntime id) 0 exampleRequest ''''
            [chunk ''1'' ''function'' ''nope'' ''{}''])) # rest \<and>
     \<lparr>Role = ''tool'', Content = ''Error executing tool nope: unknown tool: nope'',
      ToolCallID = ''1'', ToolCalls = []\<rparr>
       \<in> set (Messages (snd (executeAndContinue (exampleHandler [] []) (exampleRuntime id) 0
            exampleRequest '''' [chunk ''1'' ''function'' ''nope'' ''{}'']))))"
proof -
  have f: "Name (Function (chunk ''1'' ''function'' ''nope'' ''{}'')) = ''nope''"
    "Arguments (Function (chunk ''1'' ''function'' ''nope'' ''{}'')) = ''{}''"
    "ID (chunk ''1'' ''function'' ''nope'' ''{}'') = ''1''"
    by (simp_all add: chunk_def)
  have m: "chunk ''1'' ''function'' ''nope'' ''{}'' \<in> set [chunk ''1'' ''function'' ''nope'' ''{}'']"
    by simp
  have e: "toolExecutor (exampleHandler [] []) (Name (Function (chunk ''1'' ''function'' ''nope'' ''{}'')))
      (Arguments (Function (chunk ''1'' ''function'' ''nope'' ''{}''))) = Inl ''unknown tool: nope''"
    unfolding f by (rule unknown_tool_fails)
  from failing_tool_is_answered [OF m e, of "exampleRuntime id" 0 exampleRequest "''''"]
  show ?thesis
    using unknown_tool_fails [of "[]" "[]"] unfolding f by simp
qed

section \<open>The chat handler: when tools are executed\<close>

text \<open>The whole run of a request that nothing interrupts.\<close>

lemma stream_run:
  assumes "ollamaClient h (req\<lparr>Tools := availableTools h\<rparr>) = Inr stream"
    "\<forall>i. \<not> ctxDone rt i" "\<forall>r. \<not> marshalFails rt r"
  shows "streamWithFunctionCalling h rt req =
     (if toolsRequested rt newRound stream
      then (Call (req\<lparr>Tools := availableTools h\<rparr>) #
            map Write (forwardedFrames (roundPrefix stream)) @
            fst (executeAndContinue h rt 0 (req\<lparr>Tools := availableTools h\<rparr>)
                   (assistantContent (roundEnd rt newRound stream))
                   (eligibleToolCalls (rangeOrder rt) (toolCallsMap (roundEnd rt newRound stream)))),
            snd (executeAndContinue h rt 0 (req\<lparr>Tools := availableTools h\<rparr>)
                   (assistantContent (roundEnd rt newRound stream))
                   (eligibleToolCalls (rangeOrder rt) (toolCallsMap (roundEnd rt newRound stream)))))
      else (Call (req\<lparr>Tools := availableTools h\<rparr>) #
            map Write (forwardedFrames (roundPrefix stream)),
            req\<lparr>Tools := availableTools h\<rparr>))"
  using assms(1) streamLoop_run [OF assms(2,3), of h "req\<lparr>Tools := availableTools h\<rparr>" 0 newRound stream]
  by (simp add: streamWithFunctionCalling_def Let_def)

lemma filter_isExec_Write: "filter isExec (map Write frames) = []"
  by (induction frames) simp_all

lemma filter_isCall_Write: "filter isCall (map Write frames) = []"
  by (induction frames) simp_all

lemma filter_isExec_execEffect: "filter isExec (map execEffect tcs) = map execEffect tcs"
  by (induction tcs) (simp_all add: execEffect_def)

lemma filter_isCall_execEffect: "filter isCall (map execEffect tcs) = []"
  by (induction tcs) (simp_all add: execEffect_def)

text \<open>After the tools: one more call of \<open>ChatStream\<close>, then only frames.\<close>

lemma executeAndContinue_shape:
  "\<exists>rest. fst (executeAndContinue h rt n req content tcs) =
      map execEffect tcs @ Call (continued h req content tcs) # map Write rest \<and>
     list_all (\<lambda>f. \<not> terminal f) (butlast rest)"
proof (cases "ollamaClient h (continued h req content tcs)")
  case (Inl err)
  then have "fst (executeAndContinue h rt n req content tcs) =
      map execEffect tcs @ Call (continued h req content tcs) #
      map Write [ErrorFrame (''Failed to get final response: '' @ err)]"
    by (simp add: executeAndContinue_eq)
  then show ?thesis
    by (intro exI [of _ "[ErrorFrame (''Failed to get final response: '' @ err)]"]) simp
next
  case (Inr stream)
  obtain frames where "streamFinal rt n stream = map Write frames"
    "list_all (\<lambda>f. \<not> terminal f) (butlast frames)"
    using streamFinal_writes by blast
  then show ?thesis
    using Inr by (auto simp: executeAndContinue_eq)
qed

lemma executeAndContinue_snd:
  "snd (executeAndContinue h rt n req content tcs) = continued h req content tcs"
  by (simp add: executeAndContinue_eq)

text \<open>Evaluation of the examples.\<close>

lemma exampleRuntime_quiet:
  "\<forall>i. \<not> ctxDone (exampleRuntime ord) i" "\<forall>r. \<not> marshalFails (exampleRuntime ord) r"
  "rangeOrder (exampleRuntime ord) = ord"
  by (simp_all add: exampleRuntime_def)

lemma exampleHandler_first:
  "ollamaClient (exampleHandler first second)
     (exampleRequest\<lparr>Tools := availableTools (exampleHandler first second)\<rparr>) = Inr first"
  by (simp add: exampleHandler_def exampleRequest_def)

lemma exampleHandler_second:
  "ollamaClient (exampleHandler first second)
     (continued h (exampleRequest\<lparr>Tools := ts\<rparr>) content tcs) = Inr second"
  by (simp add: exampleHandler_def exampleRequest_def continued_def)

lemma toolCallResponse_round:
  "name \<noteq> [] \<Longrightarrow>
   roundEnd (exampleRuntime ord) newRound (toolCallResponse ''1'' name done reason # rest) =
     (if done then \<lparr>assistantContent = '''', toolCallsMap = [(''1'', chunk ''1'' ''function'' name ''{}'')],
                     finishReason = reason\<rparr>
      else roundEnd (exampleRuntime ord)
             \<lparr>assistantContent = '''', toolCallsMap = [(''1'', chunk ''1'' ''function'' name ''{}'')],
               finishReason = reason\<rparr> rest)"
  by (simp add: roundEnd_def toolCallResponse_def response_def collect_def newRound_def
      collectToolCalls_def collectToolCall_def chunk_def mergeByID_def mergeInto_def lookup_def
      zeroToolCall_def appendArguments_def Let_def)

lemma eligible_one:
  "range_order ord \<Longrightarrow> name \<noteq> '''' \<Longrightarrow>
   eligibleToolCalls ord [(''1'', chunk ''1'' ''function'' name ''{}'')]
     = [chunk ''1'' ''function'' name ''{}'']"
  by (simp add: eligibleToolCalls_def range_order_single eligible_def chunk_def)

lemma toolCallResponse_fields:
  "Done (toolCallResponse i name done reason) = done"
  "DoneReason (toolCallResponse i name done reason) = reason"
  by (simp_all add: toolCallResponse_def response_def)

lemma execEffect_chunk: "execEffect (chunk i t name args) = Exec name args"
  by (simp add: execEffect_def chunk_def)

text \<open>The invocations of the executor in a request that nothing interrupts.\<close>

lemma handler_execs:
  assumes "ollamaClient h (req\<lparr>Tools := availableTools h\<rparr>) = Inr stream"
    "\<forall>i. \<not> ctxDone rt i" "\<forall>r. \<not> marshalFails rt r"
  shows "filter isExec (fst (streamWithFunctionCalling h rt req)) =
     (if toolsRequested rt newRound stream
      then map execEffect
             (eligibleToolCalls (rangeOrder rt) (toolCallsMap (roundEnd rt newRound stream)))
      else [])"
proof -
  obtain rest where "fst (executeAndContinue h rt 0 (req\<lparr>Tools := availableTools h\<rparr>)
         (assistantContent (roundEnd rt newRound stream))
         (eligibleToolCalls (rangeOrder rt) (toolCallsMap (roundEnd rt newRound stream)))) =
      map execEffect (eligibleToolCalls (rangeOrder rt) (toolCallsMap (roundEnd rt newRound stream))) @
      Call (continued h (req\<lparr>Tools := availableTools h\<rparr>)
         (assistantContent (roundEnd rt newRound stream))
         (eligibleToolCalls (rangeOrder rt) (toolCallsMap (roundEnd rt newRound stream)))) #
      map Write rest"
    using executeAndContinue_shape by blast
  then show ?thesis
    by (simp add: stream_run [OF assms] filter_isExec_Write filter_isExec_execEffect)
qed

text \<open>
  Claim C3, as stated, fails: a round that ends without any completion, because the
  stream is closed after a tool-call delta, still executes the tool (lines 106-121).
\<close>

theorem closed_stream_executes_tools:
  "\<not> list_ex Done [toolCallResponse ''1'' ''get_news'' False ''''] \<and>
   list_all (\<lambda>r. DoneReason r = '''') [toolCallResponse ''1'' ''get_news'' False ''''] \<and>
   filter isExec (fst (streamWithFunctionCalling
       (exampleHandler [toolCallResponse ''1'' ''get_news'' False ''''] [])
       (exampleRuntime id) exampleRequest)) = [Exec ''get_news'' ''{}'']"
proof -
  have d: "\<not> list_ex Done [toolCallResponse ''1'' ''get_news'' False '''']"
    "list_all (\<lambda>r. DoneReason r = '''') [toolCallResponse ''1'' ''get_news'' False '''']"
    by (simp_all add: toolCallResponse_fields)
  have r: "toolCallsMap (roundEnd (exampleRuntime id) newRound [toolCallResponse ''1'' ''get_news'' False ''''])
      = [(''1'', chunk ''1'' ''function'' ''get_news'' ''{}'')]"
    by (simp add: toolCallResponse_round roundEnd_simps)
  have t: "toolsRequested (exampleRuntime id) newRound [toolCallResponse ''1'' ''get_news'' False '''']"
    using d(1) unfolding toolsRequested_def r
    by (simp add: exampleRuntime_quiet eligible_one range_order_id)
  from handler_execs [OF exampleHandler_first exampleRuntime_quiet(1,2), of
      "[toolCallResponse ''1'' ''get_news'' False '''']" "[]" id]
  have "filter isExec (fst (streamWithFunctionCalling
       (exampleHandler [toolCallResponse ''1'' ''get_news'' False ''''] [])
       (exampleRuntime id) exampleRequest)) =
     map execEffect (eligibleToolCalls id [(''1'', chunk ''1'' ''function'' ''get_news'' ''{}'')])"
    using t unfolding r by (simp add: exampleRuntime_quiet)
  then show ?thesis
    using d by (simp add: eligible_one range_order_id execEffect_chunk)
qed

text \<open>
  Claim C3, amended. In a request that is not cancelled and whose frames can be
  marshalled, the executor is invoked exactly when the first round ends with a non-empty
  map and a non-empty eligible set and, if it ended with a \<open>done\<close> response rather
  than with the closing of the stream, the last reason received is \<open>tool_calls\<close>.
  Then it is invoked once for each eligible record; otherwise (no eligible record, or a
  completion with another reason) it is not invoked at all. The round after the tools
  never invokes it.
\<close>

theorem tools_executed_iff_requested:
  assumes "ollamaClient h (req\<lparr>Tools := availableTools h\<rparr>) = Inr stream"
    "\<forall>i. \<not> ctxDone rt i" "\<forall>r. \<not> marshalFails rt r"
  shows "filter isExec (fst (streamWithFunctionCalling h rt req)) =
     (if toolsRequested rt newRound stream
      then map execEffect
             (eligibleToolCalls (rangeOrder rt) (toolCallsMap (roundEnd rt newRound stream)))
      else [])"
  using assms by (rule handler_execs)

theorem tools_executed_iff_requested_witness:
  "ollamaClient (exampleHandler [toolCallResponse ''1'' ''get_news'' True ''stop''] [])
     (exampleRequest\<lparr>Tools := availableTools
        (exampleHandler [toolCallResponse ''1'' ''get_news'' True ''stop''] [])\<rparr>)
     = Inr [toolCallResponse ''1'' ''get_news'' True ''stop''] \<and>
   (\<forall>i. \<not> ctxDone (exampleRuntime id) i) \<and>
   (\<forall>r. \<not> marshalFails (exampleRuntime id) r) \<and>
   \<not> toolsRequested (exampleRuntime id) newRound [toolCallResponse ''1'' ''get_news'' True ''stop''] \<and>
   filter isExec (fst (streamWithFunctionCalling
       (exampleHandler [toolCallResponse ''1'' ''get_news'' True ''stop''] [])
       (exampleRuntime id) exampleRequest)) = []"
proof -
  have "finishReason (roundEnd (exampleRuntime id) newRound
      [toolCallResponse ''1'' ''get_news'' True ''stop'']) = ''stop''"
    by (simp add: toolCallResponse_round)
  then have t: "\<not> toolsRequested (exampleRuntime id) newRound
      [toolCallResponse ''1'' ''get_news'' True ''stop'']"
    by (simp add: toolsRequested_def toolCallResponse_fields)
  from tools_executed_iff_requested [OF exampleHandler_first exampleRuntime_quiet(1,2), of
      "[toolCallResponse ''1'' ''get_news'' True ''stop'']" "[]" id]
  show ?thesis
    using t exampleHandler_first exampleRuntime_quiet(1,2) by simp
qed

section \<open>The chat handler: the rounds of a conversation\<close>

text \<open>The run of a request in which the first round requests tools.\<close>

lemma handler_two_rounds:
  assumes "ollamaClient h (req\<lparr>Tools := availableTools h\<rparr>) = Inr stream"
    "\<forall>i. \<not> ctxDone rt i" "\<forall>r. \<not> marshalFails rt r" "toolsRequested rt newRound stream"
  shows "streamWithFunctionCalling h rt req =
     (Call (req\<lparr>Tools := availableTools h\<rparr>) #
      map Write (forwardedFrames (roundPrefix stream)) @
      map execEffect (eligibleToolCalls (rangeOrder rt) (toolCallsMap (roundEnd rt newRound stream))) @
      Call (continued h (req\<lparr>Tools := availableTools h\<rparr>)
              (assistantContent (roundEnd rt newRound stream))
              (eligibleToolCalls (rangeOrder rt) (toolCallsMap (roundEnd rt newRound stream)))) #
      (case ollamaClient h (continued h (req\<lparr>Tools := availableTools h\<rparr>)
              (assistantContent (roundEnd rt newRound stream))
              (eligibleToolCalls (rangeOrder rt) (toolCallsMap (roundEnd rt newRound stream)))) of
         Inl err \<Rightarrow> [Write (ErrorFrame (''Failed to get final response: '' @ err))]
       | Inr stream' \<Rightarrow> streamFinal rt 0 stream'),
      continued h (req\<lparr>Tools := availableTools h\<rparr>)
        (assistantContent (roundEnd rt newRound stream))
        (eligibleToolCalls (rangeOrder rt) (toolCallsMap (roundEnd rt newRound stream))))"
  using assms(4) by (simp add: stream_run [OF assms(1-3)] executeAndContinue_eq)

lemma first_round_of_example:
  "name \<noteq> [] \<Longrightarrow>
   toolsRequested (exampleRuntime id) newRound [toolCallResponse ''1'' name True ''tool_calls'']"
  "name \<noteq> [] \<Longrightarrow>
   eligibleToolCalls id (toolCallsMap (roundEnd (exampleRuntime id) newRound
       [toolCallResponse ''1'' name True ''tool_calls'']))
     = [chunk ''1'' ''function'' name ''{}'']"
  by (simp_all add: toolsRequested_def toolCallResponse_round toolCallResponse_fields
      exampleRuntime_quiet eligible_one range_order_id)

lemma forwards_toolCallResponse: "forwards (toolCallResponse i name done reason)"
  by (simp add: forwards_def toolCallResponse_def response_def)

text \<open>A run of two rounds, both of which complete with a tool call.\<close>

lemma two_round_run:
  "fst (streamWithFunctionCalling
       (exampleHandler [toolCallResponse ''1'' ''get_news'' True ''tool_calls'']
                       [toolCallResponse ''1'' ''web_search'' True ''tool_calls''])
       (exampleRuntime id) exampleRequest) =
     [Call (exampleRequest\<lparr>Tools := [''web_search'', ''get_news'']\<rparr>),
      Write (Forwarded (toolCallResponse ''1'' ''get_news'' True ''tool_calls'')),
      Exec ''get_news'' ''{}'',
      Call (continued (exampleHandler [toolCallResponse ''1'' ''get_news'' True ''tool_calls'']
                              [toolCallResponse ''1'' ''web_search'' True ''tool_calls''])
              (exampleRequest\<lparr>Tools := [''web_search'', ''get_news'']\<rparr>) ''''
              [chunk ''1'' ''function'' ''get_news'' ''{}'']),
      Write (Forwarded (toolCallResponse ''1'' ''web_search'' True ''tool_calls''))]"
proof -
  have t: "toolsRequested (exampleRuntime id) newRound [toolCallResponse ''1'' ''get_news'' True ''tool_calls'']"
    by (simp add: first_round_of_example)
  have e: "eligibleToolCalls id (toolCallsMap (roundEnd (exampleRuntime id) newRound
       [toolCallResponse ''1'' ''get_news'' True ''tool_calls'']))
     = [chunk ''1'' ''function'' ''get_news'' ''{}'']"
    by (simp add: first_round_of_example)
  have c: "assistantContent (roundEnd (exampleRuntime id) newRound
       [toolCallResponse ''1'' ''get_news'' True ''tool_calls'']) = ''''"
    by (simp add: toolCallResponse_round)
  have a: "availableTools (exampleHandler [toolCallResponse ''1'' ''get_news'' True ''tool_calls'']
                              [toolCallResponse ''1'' ''web_search'' True ''tool_calls''])
     = [''web_search'', ''get_news'']"
    by (simp add: exampleHandler_def)
  show ?thesis
    unfolding handler_two_rounds [OF exampleHandler_first exampleRuntime_quiet(1,2) t]
      exampleRuntime_quiet(3) e c exampleHandler_second a
    by (simp add: forwardedFrames_def forwards_toolCallResponse toolCallResponse_fields
        execEffect_chunk exampleRuntime_quiet)
qed

text \<open>
  Claim C1, as stated, fails: the round after the tools is the last one. Here the second
  round also completes with reason \<open>tool_calls\<close> and an eligible record, but its
  response is only forwarded: the executor is invoked once, for the record of the first
  round, and \<open>ChatStream\<close> twice.
\<close>

theorem second_round_tool_calls_not_executed:
  "toolsRequested (exampleRuntime id) newRound [toolCallResponse ''1'' ''web_search'' True ''tool_calls''] \<and>
   filter isExec (fst (streamWithFunctionCalling
       (exampleHandler [toolCallResponse ''1'' ''get_news'' True ''tool_calls'']
                       [toolCallResponse ''1'' ''web_search'' True ''tool_calls''])
       (exampleRuntime id) exampleRequest)) = [Exec ''get_news'' ''{}''] \<and>
   length (filter isCall (fst (streamWithFunctionCalling
       (exampleHandler [toolCallResponse ''1'' ''get_news'' True ''tool_calls'']
                       [toolCallResponse ''1'' ''web_search'' True ''tool_calls''])
       (exampleRuntime id) exampleRequest))) = 2 \<and>
   last (fst (streamWithFunctionCalling
       (exampleHandler [toolCallResponse ''1'' ''get_news'' True ''tool_calls'']
                       [toolCallResponse ''1'' ''web_search'' True ''tool_calls''])
       (exampleRuntime id) exampleRequest))
     = Write (Forwarded (toolCallResponse ''1'' ''web_search'' True ''tool_calls''))"
  unfolding two_round_run by (simp add: first_round_of_example)

text \<open>
  Claim C1, amended. In a request that is not cancelled, when the first round ends with
  the tools requested (in particular on a completion with reason \<open>tool_calls\<close> and at
  least one eligible record), the handler executes every eligible record and then
  invokes \<open>ChatStream\<close> again with the history extended by the assistant's and the
  tools' messages. The round entered after the tools is the last: whatever its
  completion, its events are only written to the client.
\<close>

theorem tools_then_final_round:
  assumes "ollamaClient h (req\<lparr>Tools := availableTools h\<rparr>) = Inr stream"
    "\<forall>i. \<not> ctxDone rt i" "\<forall>r. \<not> marshalFails rt r" "toolsRequested rt newRound stream"
  shows "\<exists>rest.
     fst (streamWithFunctionCalling h rt req) =
       Call (req\<lparr>Tools := availableTools h\<rparr>) #
       map Write (forwardedFrames (roundPrefix stream)) @
       map execEffect (eligibleToolCalls (rangeOrder rt) (toolCallsMap (roundEnd rt newRound stream))) @
       Call (snd (streamWithFunctionCalling h rt req)) # map Write rest \<and>
     eligibleToolCalls (rangeOrder rt) (toolCallsMap (roundEnd rt newRound stream)) \<noteq> [] \<and>
     snd (streamWithFunctionCalling h rt req) =
       continued h (req\<lparr>Tools := availableTools h\<rparr>)
         (assistantContent (roundEnd rt newRound stream))
         (eligibleToolCalls (rangeOrder rt) (toolCallsMap (roundEnd rt newRound stream)))"
proof -
  obtain rest where "fst (executeAndContinue h rt 0 (req\<lparr>Tools := availableTools h\<rparr>)
         (assistantContent (roundEnd rt newRound stream))
         (eligibleToolCalls (rangeOrder rt) (toolCallsMap (roundEnd rt newRound stream)))) =
      map execEffect (eligibleToolCalls (rangeOrder rt) (toolCallsMap (roundEnd rt newRound stream))) @
      Call (continued h (req\<lparr>Tools := availableTools h\<rparr>)
         (assistantContent (roundEnd rt newRound stream))
         (eligibleToolCalls (rangeOrder rt) (toolCallsMap (roundEnd rt newRound stream)))) #
      map Write rest"
    using executeAndContinue_shape by blast
  then show ?thesis
    using assms(4)
    by (auto simp: stream_run [OF assms(1-3)] executeAndContinue_snd toolsRequested_def)
qed

theorem tools_then_final_round_witness:
  "ollamaClient (exampleHandler [toolCallResponse ''1'' ''get_news'' True ''tool_calls''] [])
     (exampleRequest\<lparr>Tools := availableTools
        (exampleHandler [toolCallResponse ''1'' ''get_news'' True ''tool_calls''] [])\<rparr>)
     = Inr [toolCallResponse ''1'' ''get_news'' True ''tool_calls''] \<and>
   (\<forall>i. \<not> ctxDone (exampleRuntime id) i) \<and>
   (\<forall>r. \<not> marshalFails (exampleRuntime id) r) \<and>
   toolsRequested (exampleRuntime id) newRound [toolCallResponse ''1'' ''get_news'' True ''tool_calls''] \<and>
   (\<exists>rest.
     fst (streamWithFunctionCalling
            (exampleHandler [toolCallResponse ''1'' ''get_news'' True ''tool_calls''] [])
            (exampleRuntime id) exampleRequest) =
       Call (exampleRequest\<lparr>Tools := [''web_search'', ''get_news'']\<rparr>) #
       Write (Forwarded (toolCallResponse ''1'' ''get_news'' True ''tool_calls'')) #
       Exec ''get_news'' ''{}'' #
       Call (snd (streamWithFunctionCalling
            (exampleHandler [toolCallResponse ''1'' ''get_news'' True ''tool_calls''] [])
            (exampleRuntime id) exampleRequest)) # map Write rest)"
proof -
  have t: "toolsRequested (exampleRuntime id) newRound [toolCallResponse ''1'' ''get_news'' True ''tool_calls'']"
    by (simp add: first_round_of_example)
  have e: "eligibleToolCalls id (toolCallsMap (roundEnd (exampleRuntime id) newRound
       [toolCallResponse ''1'' ''get_news'' True ''tool_calls'']))
     = [chunk ''1'' ''function'' ''get_news'' ''{}'']"
    by (simp add: first_round_of_example)
  have a: "availableTools (exampleHandler [toolCallResponse ''1'' ''get_news'' True ''tool_calls''] [])
     = [''web_search'', ''get_news'']"
    by (simp add: exampleHandler_def)
  from tools_then_final_round [OF exampleHandler_first [of _ "[]"] exampleRuntime_quiet(1,2) t]
  show ?thesis
    using t exampleHandler_first [of "[toolCallResponse ''1'' ''get_news'' True ''tool_calls'']" "[]"]
      exampleRuntime_quiet(1,2) [of id]
    unfolding exampleRuntime_quiet(3) e a
    by (auto simp: forwardedFrames_def forwards_toolCallResponse toolCallResponse_fields
        execEffect_chunk)
qed

section \<open>The chat handler: the order of the tool results\<close>

text \<open>The request that the caller sees afterwards, for every run, interrupted or not.\<close>

lemma handler_history:
  assumes "ollamaClient h (req\<lparr>Tools := availableTools h\<rparr>) = Inr stream"
  shows "snd (streamWithFunctionCalling h rt req) = req\<lparr>Tools := availableTools h\<rparr> \<or>
     snd (streamWithFunctionCalling h rt req) =
       continued h (req\<lparr>Tools := availableTools h\<rparr>)
         (assistantContent (roundEnd rt newRound stream))
         (eligibleToolCalls (rangeOrder rt) (toolCallsMap (roundEnd rt newRound stream)))"
  using assms streamLoop_shape [of h rt "req\<lparr>Tools := availableTools h\<rparr>" 0 newRound stream]
  by (auto simp: streamWithFunctionCalling_def Let_def executeAndContinue_snd)

lemma toolMessage_ids: "map ToolCallID (map (toolMessage h) tcs) = map ID tcs"
  by (simp add: toolMessage_def)

lemma eligibleToolCalls_mset:
  "range_order ord \<Longrightarrow> mset (eligibleToolCalls ord m) = mset (filter eligible (map snd m))"
  by (metis eligibleToolCalls_def mset_filter mset_map range_order_def)

lemma two_calls_round:
  "toolCallsMap (roundEnd (exampleRuntime ord) newRound
     [response '''' [chunk ''a'' ''function'' ''get_news'' ''{}'',
                     chunk ''b'' ''function'' ''web_search'' ''{}''] True ''tool_calls''])
     = [(''a'', chunk ''a'' ''function'' ''get_news'' ''{}''),
        (''b'', chunk ''b'' ''function'' ''web_search'' ''{}'')]"
  "finishReason (roundEnd (exampleRuntime ord) newRound
     [response '''' [chunk ''a'' ''function'' ''get_news'' ''{}'',
                     chunk ''b'' ''function'' ''web_search'' ''{}''] True ''tool_calls''])
     = ''tool_calls''"
  by (simp_all add: roundEnd_def response_def collect_def newRound_def
      collectToolCalls_def collectToolCall_def chunk_def mergeByID_def mergeInto_def lookup_def
      zeroToolCall_def appendArguments_def Let_def)

lemma two_calls_eligible:
  "eligibleToolCalls id [(''a'', chunk ''a'' ''function'' ''get_news'' ''{}''),
                         (''b'', chunk ''b'' ''function'' ''web_search'' ''{}'')]
     = [chunk ''a'' ''function'' ''get_news'' ''{}'', chunk ''b'' ''function'' ''web_search'' ''{}'']"
  "eligibleToolCalls rev [(''a'', chunk ''a'' ''function'' ''get_news'' ''{}''),
                          (''b'', chunk ''b'' ''function'' ''web_search'' ''{}'')]
     = [chunk ''b'' ''function'' ''web_search'' ''{}'', chunk ''a'' ''function'' ''get_news'' ''{}'']"
  by (simp_all add: eligibleToolCalls_def eligible_def chunk_def)

lemma two_calls_history:
  assumes "ord = id \<or> ord = rev"
  shows "Messages (snd (streamWithFunctionCalling
       (exampleHandler
          [response '''' [chunk ''a'' ''function'' ''get_news'' ''{}'',
                          chunk ''b'' ''function'' ''web_search'' ''{}''] True ''tool_calls''] [])
       (exampleRuntime ord) exampleRequest)) =
     Messages exampleRequest @
     assistantMessage ''''
       (eligibleToolCalls ord [(''a'', chunk ''a'' ''function'' ''get_news'' ''{}''),
                               (''b'', chunk ''b'' ''function'' ''web_search'' ''{}'')]) #
     map (toolMessage (exampleHandler
          [response '''' [chunk ''a'' ''function'' ''get_news'' ''{}'',
                          chunk ''b'' ''function'' ''web_search'' ''{}''] True ''tool_calls''] []))
       (eligibleToolCalls ord [(''a'', chunk ''a'' ''function'' ''get_news'' ''{}''),
                               (''b'', chunk ''b'' ''function'' ''web_search'' ''{}'')])"
proof -
  let ?first = "[response '''' [chunk ''a'' ''function'' ''get_news'' ''{}'',
                          chunk ''b'' ''function'' ''web_search'' ''{}''] True ''tool_calls'']"
  have c: "assistantContent (roundEnd (exampleRuntime ord) newRound ?first) = ''''"
    by (simp add: roundEnd_def response_def collect_def newRound_def)
  have "eligibleToolCalls ord [(''a'', chunk ''a'' ''function'' ''get_news'' ''{}''),
                               (''b'', chunk ''b'' ''function'' ''web_search'' ''{}'')] \<noteq> []"
    using assms two_calls_eligible by auto
  then have t: "toolsRequested (exampleRuntime ord) newRound ?first"
    by (simp add: toolsRequested_def two_calls_round exampleRuntime_quiet)
  show ?thesis
    unfolding handler_two_rounds [OF exampleHandler_first exampleRuntime_quiet(1,2) t]
      two_calls_round exampleRuntime_quiet(3) c
    by (simp add: continued_def)
qed

text \<open>
  Claim C4, as stated, fails: the order of the records is the order in which \<open>range\<close>
  visits the map, which the deltas do not decide. The same deltas, with the calls
  \<open>a\<close> and \<open>b\<close> arriving in this order, give the tool messages in the order
  \<open>a, b\<close> under one order of \<open>range\<close> and \<open>b, a\<close> under another.
\<close>

theorem range_order_changes_transcript:
  "range_order id \<and> range_order rev \<and>
   map ToolCallID (Messages (snd (streamWithFunctionCalling
       (exampleHandler
          [response '''' [chunk ''a'' ''function'' ''get_news'' ''{}'',
                          chunk ''b'' ''function'' ''web_search'' ''{}''] True ''tool_calls''] [])
       (exampleRuntime id) exampleRequest))) = ['''', '''', ''a'', ''b''] \<and>
   map ToolCallID (Messages (snd (streamWithFunctionCalling
       (exampleHandler
          [response '''' [chunk ''a'' ''function'' ''get_news'' ''{}'',
                          chunk ''b'' ''function'' ''web_search'' ''{}''] True ''tool_calls''] [])
       (exampleRuntime rev) exampleRequest))) = ['''', '''', ''b'', ''a'']"
  unfolding two_calls_history [of id, simplified] two_calls_history [of rev, simplified]
    two_calls_eligible
  by (simp add: range_order_id range_order_rev exampleRequest_def assistantMessage_def
      toolMessage_def chunk_def)

text \<open>
  Claim C4, amended. Whenever the handler has extended the history, it has appended one
  assistant message whose \<open>tool_calls\<close> are the eligible records of the first round
  in the order in which \<open>range\<close> visited the map, followed by one tool message for
  each of these records, in the same order and with the record's call ID. This order is
  some order of the eligible records of the map; it is chosen by the runtime and need
  not be the order of arrival.
\<close>

theorem tool_results_follow_tool_calls:
  assumes "ollamaClient h (req\<lparr>Tools := availableTools h\<rparr>) = Inr stream"
    "Messages (snd (streamWithFunctionCalling h rt req)) \<noteq> Messages req"
  shows "Messages (snd (streamWithFunctionCalling h rt req)) =
       Messages req @
       assistantMessage (assistantContent (roundEnd rt newRound stream))
         (eligibleToolCalls (rangeOrder rt) (toolCallsMap (roundEnd rt newRound stream))) #
       map (toolMessage h)
         (eligibleToolCalls (rangeOrder rt) (toolCallsMap (roundEnd rt newRound stream))) \<and>
     map ToolCallID (map (toolMessage h)
         (eligibleToolCalls (rangeOrder rt) (toolCallsMap (roundEnd rt newRound stream)))) =
       map ID (eligibleToolCalls (rangeOrder rt) (toolCallsMap (roundEnd rt newRound stream))) \<and>
     (range_order (rangeOrder rt) \<longrightarrow>
        mset (eligibleToolCalls (rangeOrder rt) (toolCallsMap (roundEnd rt newRound stream))) =
        mset (filter eligible (map snd (toolCallsMap (roundEnd rt newRound stream)))))"
proof -
  have "snd (streamWithFunctionCalling h rt req) =
       continued h (req\<lparr>Tools := availableTools h\<rparr>)
         (assistantContent (roundEnd rt newRound stream))
         (eligibleToolCalls (rangeOrder rt) (toolCallsMap (roundEnd rt newRound stream)))"
    using handler_history [OF assms(1), of rt] assms(2) by auto
  then show ?thesis
    using toolMessage_ids [of h] eligibleToolCalls_mset [of "rangeOrder rt"]
    by (simp add: continued_def)
qed

theorem tool_results_follow_tool_calls_witness:
  "ollamaClient (exampleHandler
          [response '''' [chunk ''a'' ''function'' ''get_news'' ''{}'',
                          chunk ''b'' ''function'' ''web_search'' ''{}''] True ''tool_calls''] [])
     (exampleRequest\<lparr>Tools := availableTools (exampleHandler
          [response '''' [chunk ''a'' ''function'' ''get_news'' ''{}'',
                          chunk ''b'' ''function'' ''web_search'' ''{}''] True ''tool_calls''] [])\<rparr>)
     = Inr [response '''' [chunk ''a'' ''function'' ''get_news'' ''{}'',
                          chunk ''b'' ''function'' ''web_search'' ''{}''] True ''tool_calls''] \<and>
   Messages (snd (streamWithFunctionCalling
       (exampleHandler
          [response '''' [chunk ''a'' ''function'' ''get_news'' ''{}'',
                          chunk ''b'' ''function'' ''web_search'' ''{}''] True ''tool_calls''] [])
       (exampleRuntime rev) exampleRequest)) \<noteq> Messages exampleRequest \<and>
   range_order (rangeOrder (exampleRuntime rev)) \<and>
   map ToolCallID (map (toolMessage (exampleHandler
          [response '''' [chunk ''a'' ''function'' ''get_news'' ''{}'',
                          chunk ''b'' ''function'' ''web_search'' ''{}''] True ''tool_calls''] []))
       (eligibleToolCalls (rangeOrder (exampleRuntime rev)) (toolCallsMap
          (roundEnd (exampleRuntime rev) newRound
             [response '''' [chunk ''a'' ''function'' ''get_news'' ''{}'',
                          chunk ''b'' ''function'' ''web_search'' ''{}''] True ''tool_calls''])))) =
     [''b'', ''a'']"
proof -
  have n: "Messages (snd (streamWithFunctionCalling
       (exampleHandler
          [response '''' [chunk ''a'' ''function'' ''get_news'' ''{}'',
                          chunk ''b'' ''function'' ''web_search'' ''{}''] True ''tool_calls''] [])
       (exampleRuntime rev) exampleRequest)) \<noteq> Messages exampleRequest"
    unfolding two_calls_history [of rev, simplified] by simp
  have r: "range_order (rangeOrder (exampleRuntime rev))"
    by (simp add: exampleRuntime_quiet range_order_rev)
  from tool_results_follow_tool_calls [OF exampleHandler_first [of _ "[]"] n]
  show ?thesis
    using n r exampleHandler_first [of _ "[]"]
    unfolding two_calls_round exampleRuntime_quiet(3) two_calls_eligible
    by (simp add: chunk_def)
qed

section \<open>The terminal frame of a conversation\<close>

lemma stop_round_run:
  "fst (streamWithFunctionCalling
       (exampleHandler [response ''hi'' [] False '''', response '' there'' [] False '''',
                        response '''' [] True ''stop''] [])
       (exampleRuntime id) exampleRequest) =
     [Call (exampleRequest\<lparr>Tools := [''web_search'', ''get_news'']\<rparr>),
      Write (Forwarded (response ''hi'' [] False '''')),
      Write (Forwarded (response '' there'' [] False ''''))]"
proof -
  let ?first = "[response ''hi'' [] False '''', response '' there'' [] False '''',
                 response '''' [] True ''stop'']"
  have "toolCallsMap (roundEnd (exampleRuntime id) newRound ?first) = []"
    by (simp add: roundEnd_def response_def collect_def newRound_def)
  then have t: "\<not> toolsRequested (exampleRuntime id) newRound ?first"
    by (simp add: toolsRequested_def)
  show ?thesis
    unfolding stream_run [OF exampleHandler_first exampleRuntime_quiet(1,2)]
    using t by (simp add: forwardedFrames_def forwards_def response_def exampleHandler_def)
qed

lemma error_round_run:
  "fst (streamWithFunctionCalling
       (exampleHandler
          [\<lparr>Model = ''m'', Message = emptyMessage, Done = True, DoneReason = '''',
            Error = ''failed to parse chunk: unexpected end of JSON input''\<rparr>] [])
       (exampleRuntime id) exampleRequest) =
     [Call (exampleRequest\<lparr>Tools := [''web_search'', ''get_news'']\<rparr>)]"
proof -
  let ?first = "[\<lparr>Model = ''m'', Message = emptyMessage, Done = True, DoneReason = '''',
            Error = ''failed to parse chunk: unexpected end of JSON input''\<rparr>]"
  have "toolCallsMap (roundEnd (exampleRuntime id) newRound ?first) = []"
    by (simp add: roundEnd_def emptyMessage_def collect_def newRound_def)
  then have t: "\<not> toolsRequested (exampleRuntime id) newRound ?first"
    by (simp add: toolsRequested_def)
  show ?thesis
    unfolding stream_run [OF exampleHandler_first exampleRuntime_quiet(1,2)]
    using t by (simp add: forwardedFrames_def forwards_def emptyMessage_def exampleHandler_def)
qed

text \<open>
  Claim C2. The claim asks for exactly one terminal frame for every way a request ends.
  The adapter does end the sequence of an ordinary answer with a completion: the body
  \<open>hi\<close>, \<open> there\<close>, finish reason \<open>stop\<close> gives two content responses and one
  with \<open>done = true\<close>. But the loop of the first round writes only the responses that
  have content or tool calls (line 170), so the client receives the two content frames
  and no terminal frame, although nothing was cancelled and nothing failed. The loop of
  \<open>executeAndContinue\<close> (lines 256-268) writes the terminal frame of the same stream.
  In the same way the adapter's error event for a chunk that does not parse never
  reaches the client: the handler writes no frame at all.
\<close>

theorem first_round_drops_terminal_frame:
  "scanLines exampleUnmarshal ''m'' [''data: hi'', ''data:  there'', ''data: stop''] None =
     [response ''hi'' [] False '''', response '' there'' [] False '''',
      response '''' [] True ''stop''] \<and>
   fst (streamWithFunctionCalling
       (exampleHandler [response ''hi'' [] False '''', response '' there'' [] False '''',
                        response '''' [] True ''stop''] [])
       (exampleRuntime id) exampleRequest) =
     [Call (exampleRequest\<lparr>Tools := [''web_search'', ''get_news'']\<rparr>),
      Write (Forwarded (response ''hi'' [] False '''')),
      Write (Forwarded (response '' there'' [] False ''''))] \<and>
   \<not> terminal (Forwarded (response ''hi'' [] False '''')) \<and>
   \<not> terminal (Forwarded (response '' there'' [] False '''')) \<and>
   streamFinal (exampleRuntime id) 0
       [response ''hi'' [] False '''', response '' there'' [] False '''',
        response '''' [] True ''stop''] =
     [Write (Forwarded (response ''hi'' [] False '''')),
      Write (Forwarded (response '' there'' [] False '''')),
      Write (Forwarded (response '''' [] True ''stop''))] \<and>
   terminal (Forwarded (response '''' [] True ''stop'')) \<and>
   scanLines exampleUnmarshal ''m'' [''data: bad''] None =
     [\<lparr>Model = ''m'', Message = emptyMessage, Done = True, DoneReason = '''',
       Error = ''failed to parse chunk: unexpected end of JSON input''\<rparr>] \<and>
   fst (streamWithFunctionCalling
       (exampleHandler
          [\<lparr>Model = ''m'', Message = emptyMessage, Done = True, DoneReason = '''',
            Error = ''failed to parse chunk: unexpected end of JSON input''\<rparr>] [])
       (exampleRuntime id) exampleRequest) =
     [Call (exampleRequest\<lparr>Tools := [''web_search'', ''get_news'']\<rparr>)]"
  unfolding stop_round_run error_round_run
  by (simp add: response_def exampleUnmarshal_def exampleRuntime_def)

end
